theory Spec2Isabelle
  imports Complex_Main
begin

section \<open>Types.ts: the data model\<close>

text \<open>
  \<^verbatim>\<open>AuthenticationCredentials\<close>. An optional field that is absent (or
  \<^verbatim>\<open>undefined\<close>) is \<^const>\<open>None\<close>. The interface declares \<^verbatim>\<open>serverPublicKey\<close> a
  string, but \<^verbatim>\<open>requestQRCode\<close> and \<^verbatim>\<open>requestPairingCode\<close> fill it from an untyped
  response that may lack it, so it is optional here as well.
\<close>

record AuthenticationCredentials =
  publicKey :: string
  privateKey :: string
  serverPublicKey :: "string option"
  qrCode :: "string option"
  pairingCode :: "string option"
  session :: "string option"

text \<open>\<^verbatim>\<open>ClientOptions\<close>; \<^verbatim>\<open>number\<close> fields that count are integers.\<close>

record ClientOptions =
  restartOnConnectionLost :: bool
  maxReconnectAttempts :: int
  reconnectInterval :: nat
  logLevel :: string
  browser :: "(string \<times> string) option"

text \<open>\<^verbatim>\<open>ConnectionState\<close>, and the \<^verbatim>\<open>readyState\<close> of a WebSocket.\<close>

datatype ConnectionState = Disconnected | Connecting | Authenticating | Connected

datatype readyState = CONNECTING | OPEN | CLOSING | CLOSED

text \<open>
  The code raises plain \<^verbatim>\<open>Error\<close> objects that differ in their message only; each
  message of \<^verbatim>\<open>WAConnection.ts\<close> is a constructor. \<open>Thrown\<close> is an error that
  comes from outside the class (the socket's \<^verbatim>\<open>error\<close> event, the crypto library).
\<close>

datatype error =
    ConnectionAlreadyExists
  | NotCorrectStateForQR
  | NotCorrectStateForPairing
  | NotInAuthenticationState
  | WebSocketNotOpen
  | WebSocketNotInitialized
  | RequestTimedOut string nat
  | ServerError string
  | ClosedDuringAuthentication int string
  | Thrown string

text \<open>A payload whose shape no claim depends on is the text of its JSON value.\<close>

type_synonym json = string

section \<open>WAProtocol: message tags\<close>

text \<open>
  \<^verbatim>\<open>Number.prototype.toString()\<close> on an integer: its decimal digits, with a minus sign
  when it is negative.
\<close>

definition digitChar :: "nat \<Rightarrow> char" where
  "digitChar d = ''0123456789'' ! d"

function decimal :: "nat \<Rightarrow> string" where
  "decimal n = (if n < 10 then [digitChar n] else decimal (n div 10) @ [digitChar (n mod 10)])"
  by pat_completeness auto
termination
  by (relation "measure id") auto

declare decimal.simps [simp del]

definition toString :: "int \<Rightarrow> string" where
  "toString i = (if i < 0 then CHR ''-'' # decimal (nat (- i)) else decimal (nat i))"

text \<open>
  The numbers of JavaScript are IEEE-754 doubles. Those that occur here are finite and
  not negative: \<open>significand * 2 ^ exponent\<close>, written with a significand below \<open>2 ^ 53\<close>
  and an exponent from \<open>- 1074\<close> on.
\<close>

record double =
  significand :: nat
  exponent :: int

definition valueOf :: "double \<Rightarrow> real" where
  "valueOf d =
     (if 0 \<le> exponent d then real (significand d) * 2 ^ nat (exponent d)
      else real (significand d) / 2 ^ nat (- exponent d))"

definition isDouble :: "double \<Rightarrow> bool" where
  "isDouble d = (significand d < 2 ^ 53 \<and> - 1074 \<le> exponent d \<and> exponent d \<le> 971)"

text \<open>The number of binary digits of a natural number.\<close>

function bitLength :: "nat \<Rightarrow> nat" where
  "bitLength n = (if n = 0 then 0 else Suc (bitLength (n div 2)))"
  by pat_completeness auto
termination
  by (relation "measure id") auto

declare bitLength.simps [simp del]

text \<open>
  The double nearest to \<open>m * 2 ^ e\<close>, a tie going to the even significand: the binary
  digits below the 53 leading ones, and those below \<open>2 ^ - 1074\<close>, are rounded away. The
  product of two doubles is their exact product rounded so (a product too large for a
  double, which is \<^verbatim>\<open>Infinity\<close>, does not occur below).
\<close>

definition roundToDouble :: "nat \<Rightarrow> int \<Rightarrow> double" where
  "roundToDouble m e =
     (let below = max (int (bitLength m) - 53) (- 1074 - e)
      in if below \<le> 0 then \<lparr>significand = m, exponent = e\<rparr>
         else
           let q = m div 2 ^ nat below;
               r = m mod 2 ^ nat below;
               half = 2 ^ (nat below - 1)
           in \<lparr>significand = (if half < r \<or> (r = half \<and> odd q) then q + 1 else q),
               exponent = e + below\<rparr>)"

definition multiply :: "double \<Rightarrow> double \<Rightarrow> double" where
  "multiply x y = roundToDouble (significand x * significand y) (exponent x + exponent y)"

definition Math_floor :: "double \<Rightarrow> int" where
  "Math_floor d =
     (if 0 \<le> exponent d then int (significand d) * 2 ^ nat (exponent d)
      else int (significand d) div 2 ^ nat (- exponent d))"

definition million :: double where
  "million = \<lparr>significand = 1000000, exponent = 0\<rparr>"

text \<open>
  \<^verbatim>\<open>
  export function generateMessageTag(): string {
      return Math.floor(Math.random() * 1000000).toString();
  }
  \<close>
  The argument \<open>u\<close> is the double \<^verbatim>\<open>Math.random()\<close> returns, which is at least 0 and
  below 1.
\<close>

definition randomDraw :: "double \<Rightarrow> bool" where
  "randomDraw u = (isDouble u \<and> valueOf u < 1)"

definition tagNumber :: "double \<Rightarrow> int" where
  "tagNumber u = Math_floor (multiply u million)"

definition generateMessageTag :: "double \<Rightarrow> string" where
  "generateMessageTag u = toString (tagNumber u)"

section \<open>WAConnection.ts: the connection\<close>

subsection \<open>What the connection talks to\<close>

text \<open>
  A request passed to \<^verbatim>\<open>sendRequest\<close> (an object with an optional \<^verbatim>\<open>tag\<close>, a
  \<^verbatim>\<open>type\<close> and \<^verbatim>\<open>data\<close>), and the messages \<^verbatim>\<open>send\<close> is called with.
\<close>

record request =
  req_tag :: "string option"
  req_type :: "string option"
  req_data :: json

datatype outbound =
    InitMsg string "string \<times> string"
  | AuthMsg string
  | PingMsg
  | RequestMsg request

text \<open>What is handed to \<^verbatim>\<open>ws.send\<close>: the serialized message, or its encryption.\<close>

datatype wire = Plain outbound | Cipher string

text \<open>
  An inbound message after \<^verbatim>\<open>JSON.parse\<close>, with the fields the class reads.
  \<open>env_credentials\<close> is the \<^verbatim>\<open>credentials\<close> object of an \<^verbatim>\<open>auth_success\<close> message
  (the fields it carries); the last three are read from the response to
  \<^verbatim>\<open>request_qr\<close> and \<^verbatim>\<open>request_pairing_code\<close>.
\<close>

record credentialFields =
  f_publicKey :: "string option"
  f_privateKey :: "string option"
  f_serverPublicKey :: "string option"
  f_qrCode :: "string option"
  f_pairingCode :: "string option"
  f_session :: "string option"

record envelope =
  env_tag :: "string option"
  env_type :: "string option"
  env_data :: json
  env_error :: "string option"
  env_credentials :: "credentialFields option"
  env_serverPublicKey :: "string option"
  env_qrCode :: "string option"
  env_pairingCode :: "string option"

text \<open>A string in a condition is true unless it is absent or empty.\<close>

definition truthy :: "string option \<Rightarrow> bool" where
  "truthy x = (case x of None \<Rightarrow> False | Some t \<Rightarrow> t \<noteq> [])"

text \<open>
  The parts of the platform the class calls. \<open>encrypt m k\<close> is
  \<^verbatim>\<open>encrypt(JSON.stringify(m), k)\<close> of \<^verbatim>\<open>Crypto.ts\<close>, which returns a string or
  throws. \<open>decode d k\<close> is \<^verbatim>\<open>JSON.parse(decrypt(d, k))\<close>, or \<^verbatim>\<open>JSON.parse(d)\<close> when
  there is no key; it returns the message or throws. \<open>parseMessageNode\<close> is the
  function of \<^verbatim>\<open>WAProtocol\<close> that reshapes the payload of a \<^verbatim>\<open>message\<close> event.
\<close>

record platform =
  encrypt :: "outbound \<Rightarrow> string option \<Rightarrow> error + string"
  decode :: "string \<Rightarrow> string option \<Rightarrow> error + envelope"
  parseMessageNode :: "json \<Rightarrow> json"

text \<open>
  What happens to a socket while \<^verbatim>\<open>waitForOpen\<close> waits: it opens, or it emits
  \<^verbatim>\<open>error\<close>.
\<close>

datatype openOutcome = Opens | OpenFails string

text \<open>The events the connection emits.\<close>

datatype event =
    EvOpen
  | EvClose int string
  | EvConnectionError string
  | EvMessage json
  | EvPresenceUpdate json
  | EvGroupUpdate json
  | EvMessageRevoke json
  | EvMessageCreate json

text \<open>Calls of the logger: the level and the message.\<close>

datatype level = Debug | Info | Warn | Error

subsection \<open>Promises, timers and the registry\<close>

text \<open>
  A promise is pending, fulfilled (with the response envelope, or with nothing for the
  authentication promise) or rejected. Settling a settled promise does nothing.
\<close>

datatype outcome = Pending | Fulfilled "envelope option" | Rejected error

text \<open>
  The timer \<^verbatim>\<open>sendRequest\<close> arms, and the pair of callbacks it stores in
  \<^verbatim>\<open>msgRetryCache\<close>: both close over the tag, the timer and the promise.
\<close>

record timer =
  t_tag :: string
  t_promise :: nat
  t_timeout :: nat

record callbacks =
  cb_tag :: string
  cb_timer :: nat
  cb_promise :: nat

text \<open>
  A promise reaction not yet run: the \<^verbatim>\<open>catch\<close> handlers that \<^verbatim>\<open>sendRequest\<close>
  and the keep-alive put on the promise of \<^verbatim>\<open>send\<close>.
\<close>

datatype microtask =
    SendRequestCatch string nat nat error
  | PingCatch error

subsection \<open>The state\<close>

text \<open>
  The fields of \<^verbatim>\<open>WAConnection\<close>, then the world they refer to. Credentials are
  objects on a heap and the field holds a reference (an address); the same holds for the
  credentials the caller passes in and gets back. \<open>authPromise\<close>, \<open>authResolve\<close> and
  \<open>authReject\<close> hold the promise they belong to. \<open>keepAliveInterval\<close> is whether the
  interval timer is set.
\<close>

record state =
  ws :: "readyState option"
  options :: ClientOptions
  credentials :: "nat option"
  authState :: ConnectionState
  authPromise :: "nat option"
  authResolve :: "nat option"
  authReject :: "nat option"
  keepAliveInterval :: bool
  msgRetryCache :: "string \<rightharpoonup> callbacks"
  heap :: "nat \<Rightarrow> AuthenticationCredentials"
  nextAddress :: nat
  promises :: "outcome list"
  timers :: "timer option list"
  microtasks :: "microtask list"
  sent :: "wire list"
  emitted :: "event list"
  logged :: "(level \<times> string) list"

definition noCredentials :: AuthenticationCredentials where
  "noCredentials = \<lparr>publicKey = [], privateKey = [], serverPublicKey = None,
     qrCode = None, pairingCode = None, session = None\<rparr>"

text \<open>\<^verbatim>\<open>new WAConnection(options)\<close>.\<close>

definition newConnection :: "ClientOptions \<Rightarrow> state" where
  "newConnection opts = \<lparr>ws = None, options = opts, credentials = None,
     authState = Disconnected, authPromise = None, authResolve = None, authReject = None,
     keepAliveInterval = False, msgRetryCache = Map.empty,
     heap = (\<lambda>_. noCredentials), nextAddress = 0, promises = [], timers = [],
     microtasks = [], sent = [], emitted = [], logged = []\<rparr>"

definition logger :: "level \<Rightarrow> string \<Rightarrow> state \<Rightarrow> state" where
  "logger l msg s = s\<lparr>logged := logged s @ [(l, msg)]\<rparr>"

definition emit :: "event \<Rightarrow> state \<Rightarrow> state" where
  "emit e s = s\<lparr>emitted := emitted s @ [e]\<rparr>"

text \<open>\<^verbatim>\<open>new Promise(...)\<close>, and the \<^verbatim>\<open>resolve\<close> and \<^verbatim>\<open>reject\<close> of a promise.\<close>

definition newPromise :: "state \<Rightarrow> nat \<times> state" where
  "newPromise s = (length (promises s), s\<lparr>promises := promises s @ [Pending]\<rparr>)"

definition settle :: "nat \<Rightarrow> outcome \<Rightarrow> state \<Rightarrow> state" where
  "settle p v s =
     (if p < length (promises s) \<and> promises s ! p = Pending
      then s\<lparr>promises := (promises s)[p := v]\<rparr> else s)"

text \<open>\<^verbatim>\<open>setTimeout\<close> and \<^verbatim>\<open>clearTimeout\<close>.\<close>

definition setTimeout :: "timer \<Rightarrow> state \<Rightarrow> nat \<times> state" where
  "setTimeout t s = (length (timers s), s\<lparr>timers := timers s @ [Some t]\<rparr>)"

definition clearTimeout :: "nat \<Rightarrow> state \<Rightarrow> state" where
  "clearTimeout i s = s\<lparr>timers := (timers s)[i := None]\<rparr>"

text \<open>An object literal allocates.\<close>

definition newObject :: "AuthenticationCredentials \<Rightarrow> state \<Rightarrow> nat \<times> state" where
  "newObject c s =
     (nextAddress s, s\<lparr>heap := (heap s)(nextAddress s := c), nextAddress := Suc (nextAddress s)\<rparr>)"

subsection \<open>Sending\<close>

text \<open>
  \<^verbatim>\<open>
  async send(message: any): Promise<void> {
      if (!this.ws || this.ws.readyState !== WebSocket.OPEN) {
          throw new Error('WebSocket connection is not open');
      }
      try {
          const serialized = JSON.stringify(message);
          const encrypted = this.credentials
              ? encrypt(serialized, this.credentials.serverPublicKey) : serialized;
          this.ws.send(encrypted);
      } catch (error) { this.logger.error('Failed to send message:', error); throw error; }
  }
  \<close>
  The body has no \<^verbatim>\<open>await\<close>: it runs to its end when \<^verbatim>\<open>send\<close> is called, and the
  promise it returns is already fulfilled or rejected.
\<close>

definition send :: "platform \<Rightarrow> outbound \<Rightarrow> state \<Rightarrow> (error + unit) \<times> state" where
  "send P message s =
     (if ws s \<noteq> Some OPEN then (Inl WebSocketNotOpen, s)
      else
        case (case credentials s of
                None \<Rightarrow> Inr (Plain message)
              | Some a \<Rightarrow> map_sum id Cipher (encrypt P message (serverPublicKey (heap s a)))) of
          Inl err \<Rightarrow> (Inl err, logger Error ''Failed to send message:'' s)
        | Inr w \<Rightarrow> (Inr (), s\<lparr>sent := sent s @ [w]\<rparr>))"

text \<open>
  The three callbacks \<^verbatim>\<open>sendRequest\<close> creates: the one of the timer, and the
  \<^verbatim>\<open>resolve\<close> and \<^verbatim>\<open>reject\<close> it stores in the registry.
\<close>

definition timeoutFires :: "nat \<Rightarrow> state \<Rightarrow> state" where
  "timeoutFires i s =
     (if i < length (timers s) then
        case timers s ! i of
          None \<Rightarrow> s
        | Some t \<Rightarrow>
            let s = clearTimeout i s;
                s = s\<lparr>msgRetryCache := (msgRetryCache s)(t_tag t := None)\<rparr>
            in settle (t_promise t) (Rejected (RequestTimedOut (t_tag t) (t_timeout t))) s
      else s)"

definition cb_resolve :: "callbacks \<Rightarrow> envelope \<Rightarrow> state \<Rightarrow> state" where
  "cb_resolve cb result s =
     (let s = clearTimeout (cb_timer cb) s;
          s = s\<lparr>msgRetryCache := (msgRetryCache s)(cb_tag cb := None)\<rparr>
      in settle (cb_promise cb) (Fulfilled (Some result)) s)"

definition cb_reject :: "callbacks \<Rightarrow> error \<Rightarrow> state \<Rightarrow> state" where
  "cb_reject cb err s =
     (let s = clearTimeout (cb_timer cb) s;
          s = s\<lparr>msgRetryCache := (msgRetryCache s)(cb_tag cb := None)\<rparr>
      in settle (cb_promise cb) (Rejected err) s)"

text \<open>
  \<^verbatim>\<open>
  async sendRequest(request: any, timeout = 30000): Promise<any> {
      const tag = request.tag || generateMessageTag();
      const taggedRequest = { ...request, tag };
      return new Promise((resolve, reject) => {
          const timeoutId = setTimeout(() => {
              this.msgRetryCache.delete(tag);
              reject(new Error(`Request ${tag} timed out after ${timeout}ms`));
          }, timeout);
          this.msgRetryCache.set(tag, {
              resolve: (result: any) => {
                  clearTimeout(timeoutId); this.msgRetryCache.delete(tag); resolve(result); },
              reject: (error: Error) => {
                  clearTimeout(timeoutId); this.msgRetryCache.delete(tag); reject(error); }
          });
          this.send(taggedRequest).catch(err => {
              clearTimeout(timeoutId); this.msgRetryCache.delete(tag); reject(err);
          });
      });
  }
  \<close>
  \<open>assignTag\<close> is the first line; \<open>u\<close> is what \<^verbatim>\<open>Math.random()\<close> returns when it is
  called. The call returns the promise. When \<^verbatim>\<open>send\<close> fails, the \<^verbatim>\<open>catch\<close> handler
  does not run inside the call: it is a promise reaction, queued as a microtask.
\<close>

definition assignTag :: "request \<Rightarrow> double \<Rightarrow> string" where
  "assignTag request u =
     (if truthy (req_tag request) then the (req_tag request) else generateMessageTag u)"

definition sendRequest ::
  "platform \<Rightarrow> request \<Rightarrow> nat \<Rightarrow> double \<Rightarrow> state \<Rightarrow> nat \<times> state" where
  "sendRequest P request timeout u s =
     (let tag = assignTag request u;
          taggedRequest = request\<lparr>req_tag := Some tag\<rparr>;
          (p, s) = newPromise s;
          (timeoutId, s) = setTimeout \<lparr>t_tag = tag, t_promise = p, t_timeout = timeout\<rparr> s;
          s = s\<lparr>msgRetryCache :=
                (msgRetryCache s)(tag \<mapsto> \<lparr>cb_tag = tag, cb_timer = timeoutId, cb_promise = p\<rparr>)\<rparr>
      in case send P (RequestMsg taggedRequest) s of
           (Inr _, s) \<Rightarrow> (p, s)
         | (Inl err, s) \<Rightarrow>
             (p, s\<lparr>microtasks := microtasks s @ [SendRequestCatch tag timeoutId p err]\<rparr>))"

text \<open>Running the queued promise reactions, in order.\<close>

fun runMicrotask :: "microtask \<Rightarrow> state \<Rightarrow> state" where
  "runMicrotask (SendRequestCatch tag timeoutId p err) s =
     (let s = clearTimeout timeoutId s;
          s = s\<lparr>msgRetryCache := (msgRetryCache s)(tag := None)\<rparr>
      in settle p (Rejected err) s)"
| "runMicrotask (PingCatch err) s = logger Warn ''Failed to send ping:'' s"

definition runMicrotasks :: "state \<Rightarrow> state" where
  "runMicrotasks s = fold runMicrotask (microtasks s) (s\<lparr>microtasks := []\<rparr>)"

subsection \<open>Connecting, disconnecting and the close of the socket\<close>

text \<open>
  \<^verbatim>\<open>
  async disconnect(): Promise<void> {
      this.logger.info('Disconnecting from WhatsApp Web');
      if (this.keepAliveInterval) {
          clearInterval(this.keepAliveInterval); this.keepAliveInterval = undefined; }
      if (this.ws) {
          if (this.ws.readyState === WebSocket.OPEN) { this.ws.close(); }
          this.ws.removeAllListeners();
          this.ws = null;
      }
      this.authState = 'disconnected';
      this.msgRetryCache.clear();
  }
  \<close>
  The socket that is closed and dropped is out of reach afterwards, with its
  listeners removed, so none of its events reaches the connection again.
\<close>

definition disconnect :: "state \<Rightarrow> state" where
  "disconnect s =
     (let s = logger Info ''Disconnecting from WhatsApp Web'' s;
          s = (if keepAliveInterval s then s\<lparr>keepAliveInterval := False\<rparr> else s);
          s = (if ws s \<noteq> None then s\<lparr>ws := None\<rparr> else s);
          s = s\<lparr>authState := Disconnected\<rparr>
      in s\<lparr>msgRetryCache := Map.empty\<rparr>)"

text \<open>
  \<^verbatim>\<open>
  private handleConnectionClose(code: number, reason: string): void {
      if (this.authState === 'authenticating' && this.authReject) {
          this.authReject(new Error(`Connection closed during authentication: ...`));
          this.authResolve = undefined; this.authReject = undefined;
      }
      this.authState = 'disconnected';
      this.emit('close', { code, reason });
  }
  \<close>
\<close>

definition handleConnectionClose :: "int \<Rightarrow> string \<Rightarrow> state \<Rightarrow> state" where
  "handleConnectionClose code reason s =
     (let s = (case authReject s of
                 None \<Rightarrow> s
               | Some p \<Rightarrow>
                   if authState s = Authenticating
                   then (settle p (Rejected (ClosedDuringAuthentication code reason)) s)
                          \<lparr>authResolve := None, authReject := None\<rparr>
                   else s);
          s = s\<lparr>authState := Disconnected\<rparr>
      in emit (EvClose code reason) s)"

text \<open>
  The listeners \<^verbatim>\<open>setupWebSocketListeners\<close> puts on \<^verbatim>\<open>open\<close>, \<^verbatim>\<open>error\<close> and \<^verbatim>\<open>close\<close>.
  The socket that emits \<^verbatim>\<open>close\<close> is closed by then.
\<close>

definition ws_on_open :: "state \<Rightarrow> state" where
  "ws_on_open s = logger Info ''WebSocket connection opened'' (s\<lparr>ws := Some OPEN\<rparr>)"

definition ws_on_error :: "string \<Rightarrow> state \<Rightarrow> state" where
  "ws_on_error msg s = emit (EvConnectionError msg) (logger Error ''WebSocket error:'' s)"

definition ws_on_close :: "int \<Rightarrow> string \<Rightarrow> state \<Rightarrow> state" where
  "ws_on_close code reason s =
     handleConnectionClose code reason
       (logger Info ''WebSocket connection closed'' (s\<lparr>ws := Some CLOSED\<rparr>))"

definition DEFAULT_WA_WEB_VERSION :: string where
  "DEFAULT_WA_WEB_VERSION = ''2.2345.0''"

definition initializeConnection :: "platform \<Rightarrow> state \<Rightarrow> (error + unit) \<times> state" where
  "initializeConnection P s =
     send P (InitMsg DEFAULT_WA_WEB_VERSION
       (case browser (options s) of Some b \<Rightarrow> b | None \<Rightarrow> (''Chrome'', ''96.0.4664.110''))) s"

definition startKeepAlive :: "state \<Rightarrow> state" where
  "startKeepAlive s = s\<lparr>keepAliveInterval := True\<rparr>"

text \<open>The callback of the keep-alive interval.\<close>

definition keepAliveTick :: "platform \<Rightarrow> state \<Rightarrow> state" where
  "keepAliveTick P s =
     (if keepAliveInterval s \<and> ws s = Some OPEN then
        case send P PingMsg s of
          (Inr _, s) \<Rightarrow> s
        | (Inl err, s) \<Rightarrow> s\<lparr>microtasks := microtasks s @ [PingCatch err]\<rparr>
      else s)"

text \<open>
  \<^verbatim>\<open>
  async connect(): Promise<void> {
      if (this.ws) { throw new Error('Connection already exists'); }
      try {
          this.authState = 'connecting';
          this.ws = new WebSocket(DEFAULT_WA_WEB_URL);
          this.setupWebSocketListeners();
          await this.waitForOpen();
          await this.initializeConnection();
          this.startKeepAlive();
          this.logger.info('Successfully connected to WhatsApp Web');
      } catch (error) {
          this.logger.error('Failed to connect:', error);
          await this.disconnect();
          throw error;
      }
  }
  \<close>
  The call is followed to its end: \<open>outcome\<close> says what the new socket does while
  \<^verbatim>\<open>waitForOpen\<close> waits, and no other event is taken to arrive in between. A socket
  that fails to open emits \<^verbatim>\<open>error\<close> and, closing, \<^verbatim>\<open>close\<close> with the code 1006 and no
  reason. Both reach the listeners of \<^verbatim>\<open>setupWebSocketListeners\<close>: the rejection of
  \<^verbatim>\<open>waitForOpen\<close> gets to the \<^verbatim>\<open>catch\<close> block, which removes them, only afterwards.
\<close>

definition connect :: "platform \<Rightarrow> openOutcome \<Rightarrow> state \<Rightarrow> (error + unit) \<times> state" where
  "connect P outcome s =
     (if ws s \<noteq> None then (Inl ConnectionAlreadyExists, s)
      else
        let s = s\<lparr>authState := Connecting\<rparr>;
            s = s\<lparr>ws := Some CONNECTING\<rparr>
        in case outcome of
             OpenFails msg \<Rightarrow>
               let s = ws_on_error msg (s\<lparr>ws := Some CLOSING\<rparr>);
                   s = ws_on_close 1006 [] s;
                   s = logger Error ''Failed to connect:'' s
               in (Inl (Thrown msg), disconnect s)
           | Opens \<Rightarrow>
               (case initializeConnection P (ws_on_open s) of
                  (Inl err, s) \<Rightarrow> (Inl err, disconnect (logger Error ''Failed to connect:'' s))
                | (Inr _, s) \<Rightarrow>
                    (Inr (), logger Info ''Successfully connected to WhatsApp Web''
                               (startKeepAlive s))))"

text \<open>
  \<^verbatim>\<open>
  async connectWithCredentials(credentials: AuthenticationCredentials): Promise<void> {
      try {
          await this.connect();
          this.credentials = credentials;
          await this.authenticate(credentials);
          this.authState = 'connected';
          this.emit('open');
      } catch (error) {
          this.logger.error('Failed to connect with credentials:', error);
          throw error;
      }
  }
  \<close>
  \<open>creds\<close> is the reference to the caller's object.
\<close>

definition authenticate :: "platform \<Rightarrow> nat \<Rightarrow> state \<Rightarrow> (error + unit) \<times> state" where
  "authenticate P creds s = send P (AuthMsg (publicKey (heap s creds))) s"

definition connectWithCredentials ::
  "platform \<Rightarrow> openOutcome \<Rightarrow> nat \<Rightarrow> state \<Rightarrow> (error + unit) \<times> state" where
  "connectWithCredentials P outcome creds s =
     (case connect P outcome s of
        (Inl err, s) \<Rightarrow> (Inl err, logger Error ''Failed to connect with credentials:'' s)
      | (Inr _, s) \<Rightarrow>
          let s = s\<lparr>credentials := Some creds\<rparr>
          in (case authenticate P creds s of
                (Inl err, s) \<Rightarrow> (Inl err, logger Error ''Failed to connect with credentials:'' s)
              | (Inr _, s) \<Rightarrow> (Inr (), emit EvOpen (s\<lparr>authState := Connected\<rparr>))))"

subsection \<open>Authentication\<close>

definition setupAuthenticationPromise :: "state \<Rightarrow> state" where
  "setupAuthenticationPromise s =
     (let (p, s) = newPromise s
      in s\<lparr>authPromise := Some p, authResolve := Some p, authReject := Some p\<rparr>)"

text \<open>
  \<^verbatim>\<open>requestQRCode\<close> up to the \<^verbatim>\<open>await\<close> of the response, and from there on.
  \<open>keys\<close> is the result of \<^verbatim>\<open>generateKeypair()\<close>, \<open>result\<close> how the promise of the
  request was settled.
  \<^verbatim>\<open>
  async requestQRCode(): Promise<string> {
      if (this.authState !== 'connecting') {
          throw new Error('Connection is not in the correct state for QR code request'); }
      try {
          const { public: publicKey, private: privateKey } = await generateKeypair();
          const response = await this.sendRequest({ tag: 'request_qr', data: { publicKey } });
          this.credentials = { publicKey, privateKey,
              serverPublicKey: response.serverPublicKey, qrCode: response.qrCode };
          this.authState = 'authenticating';
          this.setupAuthenticationPromise();
          return response.qrCode;
      } catch (error) { this.logger.error('Failed to request QR code:', error); throw error; }
  }
  \<close>
\<close>

definition requestQRCode ::
  "platform \<Rightarrow> error + string \<times> string \<Rightarrow> double \<Rightarrow> state \<Rightarrow> (error + nat) \<times> state" where
  "requestQRCode P keys u s =
     (if authState s \<noteq> Connecting then (Inl NotCorrectStateForQR, s)
      else
        case keys of
          Inl err \<Rightarrow> (Inl err, logger Error ''Failed to request QR code:'' s)
        | Inr (pub, priv) \<Rightarrow>
            let (p, s) = sendRequest P
                  \<lparr>req_tag = Some ''request_qr'', req_type = None, req_data = pub\<rparr> 30000 u s
            in (Inr p, s))"

definition requestQRCode_resume ::
  "string \<times> string \<Rightarrow> error + envelope \<Rightarrow> state \<Rightarrow> (error + string option) \<times> state" where
  "requestQRCode_resume keys result s =
     (case result of
        Inl err \<Rightarrow> (Inl err, logger Error ''Failed to request QR code:'' s)
      | Inr response \<Rightarrow>
          let (a, s) = newObject \<lparr>publicKey = fst keys, privateKey = snd keys,
                 serverPublicKey = env_serverPublicKey response, qrCode = env_qrCode response,
                 pairingCode = None, session = None\<rparr> s;
              s = s\<lparr>credentials := Some a\<rparr>;
              s = s\<lparr>authState := Authenticating\<rparr>;
              s = setupAuthenticationPromise s
          in (Inr (env_qrCode response), s))"

text \<open>\<^verbatim>\<open>requestPairingCode\<close> is the same with another tag and another field.\<close>

definition requestPairingCode ::
  "platform \<Rightarrow> error + string \<times> string \<Rightarrow> double \<Rightarrow> state \<Rightarrow> (error + nat) \<times> state" where
  "requestPairingCode P keys u s =
     (if authState s \<noteq> Connecting then (Inl NotCorrectStateForPairing, s)
      else
        case keys of
          Inl err \<Rightarrow> (Inl err, logger Error ''Failed to request pairing code:'' s)
        | Inr (pub, priv) \<Rightarrow>
            let (p, s) = sendRequest P
                  \<lparr>req_tag = Some ''request_pairing_code'', req_type = None,
                   req_data = pub\<rparr> 30000 u s
            in (Inr p, s))"

definition requestPairingCode_resume ::
  "string \<times> string \<Rightarrow> error + envelope \<Rightarrow> state \<Rightarrow> (error + string option) \<times> state" where
  "requestPairingCode_resume keys result s =
     (case result of
        Inl err \<Rightarrow> (Inl err, logger Error ''Failed to request pairing code:'' s)
      | Inr response \<Rightarrow>
          let (a, s) = newObject \<lparr>publicKey = fst keys, privateKey = snd keys,
                 serverPublicKey = env_serverPublicKey response, qrCode = None,
                 pairingCode = env_pairingCode response, session = None\<rparr> s;
              s = s\<lparr>credentials := Some a\<rparr>;
              s = s\<lparr>authState := Authenticating\<rparr>;
              s = setupAuthenticationPromise s
          in (Inr (env_pairingCode response), s))"

text \<open>
  \<^verbatim>\<open>
  async waitForAuthentication(): Promise<void> {
      if (this.authState !== 'authenticating') { throw new Error('Not in authentication state'); }
      if (!this.authPromise) { this.setupAuthenticationPromise(); }
      return this.authPromise;
  }
  \<close>
\<close>

definition waitForAuthentication :: "state \<Rightarrow> (error + nat option) \<times> state" where
  "waitForAuthentication s =
     (if authState s \<noteq> Authenticating then (Inl NotInAuthenticationState, s)
      else
        let s = (if authPromise s = None then setupAuthenticationPromise s else s)
        in (Inr (authPromise s), s))"



definition mutateObject ::
  "nat \<Rightarrow> (AuthenticationCredentials \<Rightarrow> AuthenticationCredentials) \<Rightarrow> state \<Rightarrow> state" where
  "mutateObject a f s = s\<lparr>heap := (heap s)(a := f (heap s a))\<rparr>"

subsection \<open>Inbound messages\<close>

text \<open>
  \<^verbatim>\<open>{ ...this.credentials, ...message.credentials }\<close>: a field the message carries
  replaces the stored one.
\<close>

definition mergeCredentials ::
  "AuthenticationCredentials \<Rightarrow> credentialFields option \<Rightarrow> AuthenticationCredentials" where
  "mergeCredentials c fs =
     (case fs of
        None \<Rightarrow> c
      | Some f \<Rightarrow>
          \<lparr>publicKey = (case f_publicKey f of Some v \<Rightarrow> v | None \<Rightarrow> publicKey c),
           privateKey = (case f_privateKey f of Some v \<Rightarrow> v | None \<Rightarrow> privateKey c),
           serverPublicKey =
             (case f_serverPublicKey f of Some v \<Rightarrow> Some v | None \<Rightarrow> serverPublicKey c),
           qrCode = (case f_qrCode f of Some v \<Rightarrow> Some v | None \<Rightarrow> qrCode c),
           pairingCode = (case f_pairingCode f of Some v \<Rightarrow> Some v | None \<Rightarrow> pairingCode c),
           session = (case f_session f of Some v \<Rightarrow> Some v | None \<Rightarrow> session c)\<rparr>)"

text \<open>
  \<^verbatim>\<open>
  private handleAuthSuccess(message: any): void {
      if (!this.credentials) {
          this.logger.warn('Received auth success but no credentials are stored'); return; }
      this.credentials = { ...this.credentials, ...message.credentials };
      this.authState = 'connected';
      if (this.authResolve) {
          this.authResolve(); this.authResolve = undefined; this.authReject = undefined; }
      this.emit('open');
  }
  \<close>
\<close>

definition handleAuthSuccess :: "envelope \<Rightarrow> state \<Rightarrow> state" where
  "handleAuthSuccess message s =
     (case credentials s of
        None \<Rightarrow> logger Warn ''Received auth success but no credentials are stored'' s
      | Some a \<Rightarrow>
          let (a', s) = newObject (mergeCredentials (heap s a) (env_credentials message)) s;
              s = s\<lparr>credentials := Some a'\<rparr>;
              s = s\<lparr>authState := Connected\<rparr>;
              s = (case authResolve s of
                     None \<Rightarrow> s
                   | Some p \<Rightarrow> (settle p (Fulfilled None) s)\<lparr>authResolve := None, authReject := None\<rparr>)
          in emit EvOpen s)"

text \<open>
  \<^verbatim>\<open>
  private handleIncomingMessage(message: any): void {
      if (message.tag && this.msgRetryCache.has(message.tag)) {
          const { resolve, reject } = this.msgRetryCache.get(message.tag)!;
          if (message.error) { reject(new Error(message.error)); } else { resolve(message); }
          return;
      }
      if (message.type === 'auth_success') { this.handleAuthSuccess(message); return; }
      if (message.type === 'message') {
          const parsedMessage = parseMessageNode(message.data);
          this.emit('message', parsedMessage);
          return;
      }
      switch (message.type) {
          case 'presence_update': this.emit('presence_update', message.data); break;
          case 'group_update': this.emit('group_update', message.data); break;
          case 'message_revoke': this.emit('message_revoke', message.data); break;
          case 'message_create': this.emit('message_create', message.data); break;
          default:
              this.logger.debug('Received unknown message type:', message.type);
              break;
      }
  }
  \<close>
  \<open>pendingFor\<close> is the condition of the first \<^verbatim>\<open>if\<close> together with the
  \<^verbatim>\<open>get\<close>.
\<close>

definition pendingFor :: "envelope \<Rightarrow> state \<Rightarrow> callbacks option" where
  "pendingFor message s =
     (if truthy (env_tag message) then msgRetryCache s (the (env_tag message)) else None)"

definition handleIncomingMessage :: "platform \<Rightarrow> envelope \<Rightarrow> state \<Rightarrow> state" where
  "handleIncomingMessage P message s =
     (case pendingFor message s of
        Some cb \<Rightarrow>
          if truthy (env_error message)
          then cb_reject cb (ServerError (the (env_error message))) s
          else cb_resolve cb message s
      | None \<Rightarrow>
          if env_type message = Some ''auth_success'' then handleAuthSuccess message s
          else if env_type message = Some ''message''
          then emit (EvMessage (parseMessageNode P (env_data message))) s
          else if env_type message = Some ''presence_update''
          then emit (EvPresenceUpdate (env_data message)) s
          else if env_type message = Some ''group_update''
          then emit (EvGroupUpdate (env_data message)) s
          else if env_type message = Some ''message_revoke''
          then emit (EvMessageRevoke (env_data message)) s
          else if env_type message = Some ''message_create''
          then emit (EvMessageCreate (env_data message)) s
          else logger Debug ''Received unknown message type:'' s)"

text \<open>The listener on \<^verbatim>\<open>message\<close>.\<close>

definition ws_on_message :: "platform \<Rightarrow> string \<Rightarrow> state \<Rightarrow> state" where
  "ws_on_message P d s =
     (case decode P d (case credentials s of None \<Rightarrow> None | Some a \<Rightarrow> Some (privateKey (heap s a))) of
        Inl err \<Rightarrow> logger Error ''Failed to process message:'' s
      | Inr message \<Rightarrow> handleIncomingMessage P message s)"

section \<open>Client.ts: the client and its reconnection loop\<close>

text \<open>The events \<^verbatim>\<open>FocksupClient\<close> emits.\<close>

datatype clientEvent =
    ClConnecting
  | ClAuthMethodRequired
  | ClReady
  | ClDisconnected
  | ClConnectionFailed error
  | ClReconnecting int
  | ClReconnected
  | ClReconnectFailed
  | ClMessage json
  | ClMessageCreate json
  | ClMessageRevoke json
  | ClGroupUpdate json
  | ClPresenceUpdate json

text \<open>
  The fields of \<^verbatim>\<open>FocksupClient\<close> that the connection logic uses (the handlers for
  messages, groups and media only call \<^verbatim>\<open>sendRequest\<close>), and \<open>client_waiting\<close>: the calls
  of \<^verbatim>\<open>handleReconnection\<close> that are suspended at \<^verbatim>\<open>await delay(...)\<close>, the oldest first,
  each with the value of its local variable \<^verbatim>\<open>attempts\<close>.
\<close>

record client =
  connection :: state
  client_options :: ClientOptions
  client_credentials :: "nat option"
  client_state :: ConnectionState
  client_emitted :: "clientEvent list"
  client_logged :: "(level \<times> string) list"
  client_waiting :: "int list"

definition clientEmit :: "clientEvent \<Rightarrow> client \<Rightarrow> client" where
  "clientEmit e c = c\<lparr>client_emitted := client_emitted c @ [e]\<rparr>"

definition clientLogger :: "level \<Rightarrow> string \<Rightarrow> client \<Rightarrow> client" where
  "clientLogger l msg c = c\<lparr>client_logged := client_logged c @ [(l, msg)]\<rparr>"

text \<open>
  \<^verbatim>\<open>
  private async handleReconnection(): Promise<void> {
      if (!this.credentials) {
          this.logger.warn('Cannot reconnect: No credentials available'); return; }
      let attempts = 0;
      while (attempts < this.options.maxReconnectAttempts) {
          try {
              attempts++;
              this.logger.info(`Reconnection attempt ${attempts}/...`);
              this.emit('reconnecting', attempts);
              await delay(this.options.reconnectInterval);
              await this.connect(this.credentials);
              this.logger.info('Reconnected successfully');
              this.emit('reconnected');
              return;
          } catch (error) {
              this.logger.error(`Reconnection attempt ${attempts} failed:`, error);
          }
      }
      this.logger.error('Maximum reconnection attempts reached');
      this.emit('reconnect_failed');
  }
  \<close>
  The call runs in pieces, one between each \<^verbatim>\<open>await delay(...)\<close> and the next.
  \<open>reconnectLoop\<close> is the \<^verbatim>\<open>while\<close> loop from its test, with the local variable \<^verbatim>\<open>attempts\<close>
  as an argument, up to the delay, where the call is suspended, or to the end of the
  call. \<open>handleReconnection\<close> is the call up to there; \<open>delayElapsed\<close>, further down,
  is the piece that follows a delay.
\<close>

definition reconnectLoop :: "int \<Rightarrow> client \<Rightarrow> client" where
  "reconnectLoop attempts c =
     (if attempts < maxReconnectAttempts (client_options c) then
        let attempts = attempts + 1;
            c = clientLogger Info ''Reconnection attempt'' c;
            c = clientEmit (ClReconnecting attempts) c
        in c\<lparr>client_waiting := client_waiting c @ [attempts]\<rparr>
      else
        clientEmit ClReconnectFailed
          (clientLogger Error ''Maximum reconnection attempts reached'' c))"

definition handleReconnection :: "client \<Rightarrow> client" where
  "handleReconnection c =
     (case client_credentials c of
        None \<Rightarrow> clientLogger Warn ''Cannot reconnect: No credentials available'' c
      | Some _ \<Rightarrow> reconnectLoop 0 c)"

text \<open>
  The listeners of \<^verbatim>\<open>setupEventListeners\<close>. Nothing listens to \<^verbatim>\<open>connection_error\<close>.
  \<^verbatim>\<open>
  this.connection.on('open', () => { this.state = 'connected'; this.emit('ready'); });
  this.connection.on('close', async (reason) => {
      this.state = 'disconnected';
      this.emit('disconnected', reason);
      if (this.options.restartOnConnectionLost) { await this.handleReconnection(); }
  });
  this.connection.on('message', (message) => { this.emit('message', message); });
  \<close>
  and so on for the other four events.
\<close>

fun listener :: "event \<Rightarrow> client \<Rightarrow> client" where
  "listener EvOpen c = clientEmit ClReady (c\<lparr>client_state := Connected\<rparr>)"
| "listener (EvClose code reason) c =
     (let c = clientEmit ClDisconnected (c\<lparr>client_state := Disconnected\<rparr>)
      in if restartOnConnectionLost (client_options c) then handleReconnection c else c)"
| "listener (EvConnectionError msg) c = c"
| "listener (EvMessage d) c = clientEmit (ClMessage d) c"
| "listener (EvMessageCreate d) c = clientEmit (ClMessageCreate d) c"
| "listener (EvMessageRevoke d) c = clientEmit (ClMessageRevoke d) c"
| "listener (EvGroupUpdate d) c = clientEmit (ClGroupUpdate d) c"
| "listener (EvPresenceUpdate d) c = clientEmit (ClPresenceUpdate d) c"

text \<open>
  A call into the connection returns the connection \<open>k\<close>; the events it emitted on the
  way have been delivered to the client's listeners, in their order. No listener reads
  the connection.
\<close>

definition returned :: "client \<Rightarrow> state \<Rightarrow> client" where
  "returned c k =
     fold listener (drop (length (emitted (connection c))) (emitted k)) (c\<lparr>connection := k\<rparr>)"

text \<open>
  \<^verbatim>\<open>
  async connect(credentials?: AuthenticationCredentials): Promise<void> {
      try {
          this.logger.info('Connecting to WhatsApp Web...');
          this.state = 'connecting';
          this.emit('connecting');
          if (credentials) {
              this.credentials = credentials;
              await this.connection.connectWithCredentials(credentials);
          } else {
              await this.connection.connect();
              this.state = 'authenticating';
              this.emit('auth_method_required');
          }
      } catch (error) {
          this.logger.error('Connection failed:', error);
          this.state = 'disconnected';
          this.emit('connection_failed', error);
          throw error;
      }
  }
  \<close>
\<close>

definition connectionFailed :: "error \<Rightarrow> client \<Rightarrow> client" where
  "connectionFailed err c =
     (let c = clientLogger Error ''Connection failed:'' c;
          c = c\<lparr>client_state := Disconnected\<rparr>
      in clientEmit (ClConnectionFailed err) c)"

definition clientConnect ::
  "platform \<Rightarrow> openOutcome \<Rightarrow> nat option \<Rightarrow> client \<Rightarrow> (error + unit) \<times> client" where
  "clientConnect P outcome creds c =
     (let c = clientLogger Info ''Connecting to WhatsApp Web...'' c;
          c = c\<lparr>client_state := Connecting\<rparr>;
          c = clientEmit ClConnecting c
      in case creds of
           Some a \<Rightarrow>
             (let c = c\<lparr>client_credentials := Some a\<rparr>
              in case connectWithCredentials P outcome a (connection c) of
                   (Inr _, k) \<Rightarrow> (Inr (), returned c k)
                 | (Inl err, k) \<Rightarrow> (Inl err, connectionFailed err (returned c k)))
         | None \<Rightarrow>
             (case connect P outcome (connection c) of
                (Inr _, k) \<Rightarrow>
                  (Inr (), clientEmit ClAuthMethodRequired
                             ((returned c k)\<lparr>client_state := Authenticating\<rparr>))
              | (Inl err, k) \<Rightarrow> (Inl err, connectionFailed err (returned c k))))"

text \<open>
  The delay of the \<open>i\<close>-th suspended call of \<^verbatim>\<open>handleReconnection\<close> has elapsed: the call
  goes on with \<^verbatim>\<open>await this.connect(this.credentials)\<close>, up to its next delay or to its
  end. \<open>outcome\<close> says what the socket of this attempt does, should the attempt get as far
  as opening one.
\<close>

definition delayElapsed :: "platform \<Rightarrow> openOutcome \<Rightarrow> nat \<Rightarrow> client \<Rightarrow> client" where
  "delayElapsed P outcome i c =
     (if i < length (client_waiting c) then
        let attempts = client_waiting c ! i;
            c = c\<lparr>client_waiting := take i (client_waiting c) @ drop (Suc i) (client_waiting c)\<rparr>
        in case clientConnect P outcome (client_credentials c) c of
             (Inr _, c) \<Rightarrow>
               clientEmit ClReconnected (clientLogger Info ''Reconnected successfully'' c)
           | (Inl err, c) \<Rightarrow>
               reconnectLoop attempts (clientLogger Error ''Reconnection attempt failed:'' c)
      else c)"


text \<open>
  \<^verbatim>\<open>new FocksupClient(options)\<close>, here with every option given, and the socket of the
  client's connection closing.
\<close>

definition newClient :: "ClientOptions \<Rightarrow> client" where
  "newClient opts = \<lparr>connection = newConnection opts, client_options = opts,
     client_credentials = None, client_state = Disconnected, client_emitted = [],
     client_logged = [], client_waiting = []\<rparr>"

definition socketCloses :: "int \<Rightarrow> string \<Rightarrow> client \<Rightarrow> client" where
  "socketCloses code reason c = returned c (ws_on_close code reason (connection c))"

section \<open>Utils.ts: phone numbers\<close>

text \<open>
  JavaScript strings are modelled as \<^typ>\<open>string\<close>. \<^verbatim>\<open>validatePhoneNumber\<close> only
  distinguishes the ten ASCII digits from everything else (the regular expression
  \<^verbatim>\<open>/\D/g\<close>), so the encoding of the other characters does not matter.
\<close>

definition isDigit :: "char \<Rightarrow> bool" where
  "isDigit c = (c \<in> set ''0123456789'')"

text \<open>\<^verbatim>\<open>s.startsWith(p)\<close> and \<^verbatim>\<open>s.substring(n)\<close>.\<close>

definition startsWith :: "string \<Rightarrow> string \<Rightarrow> bool" where
  "startsWith s p = (take (length p) s = p)"

definition substring :: "string \<Rightarrow> nat \<Rightarrow> string" where
  "substring s n = drop n s"

text \<open>
  \<^verbatim>\<open>
  export function validatePhoneNumber(phoneNumber: string): string {
      let cleaned = phoneNumber.replace(/\D/g, '');
      if (cleaned.startsWith('0')) { cleaned = '62' + cleaned.substring(1); }
      if (cleaned.length <= 10) { cleaned = '62' + cleaned; }
      return cleaned + '@c.us';
  }
  \<close>
\<close>

definition validatePhoneNumber :: "string \<Rightarrow> string" where
  "validatePhoneNumber phoneNumber =
     (let cleaned = filter isDigit phoneNumber;
          cleaned = (if startsWith cleaned ''0'' then ''62'' @ substring cleaned 1 else cleaned);
          cleaned = (if length cleaned \<le> 10 then ''62'' @ cleaned else cleaned)
      in cleaned @ ''@c.us'')"

text \<open>
  The digit part of the JID as the specification words it: the decimal digits of the
  input, a leading \<open>0\<close> replaced by \<open>62\<close>, and \<open>62\<close> prepended when the result of that
  step has at most ten digits.
\<close>

definition jid_digits :: "string \<Rightarrow> string" where
  "jid_digits s =
     (let ds = filter isDigit s;
          ds' = (case ds of [] \<Rightarrow> ds | c # rest \<Rightarrow> if c = CHR ''0'' then ''62'' @ rest else ds)
      in if length ds' \<le> 10 then ''62'' @ ds' else ds')"

section \<open>Auth.ts: credentials in storage\<close>

text \<open>
  \<^verbatim>\<open>
  export function formatCredentialsForStorage(credentials: any): string {
      try { return JSON.stringify(credentials); } catch (error) { ...; throw error; }
  }
  export function parseCredentialsFromStorage(storedCredentials: string): any {
      try { return JSON.parse(storedCredentials); } catch (error) { ...; throw error; }
  }
  \<close>
  Both are the platform's \<^verbatim>\<open>JSON\<close> functions, modelled here on the values that
  credentials are: objects whose properties are strings. An object is the list of its
  properties in order, with distinct keys, none of them an array index. A string is the list of its bytes, so a
  character outside ASCII is the bytes of its UTF-8 encoding, which \<^verbatim>\<open>JSON.stringify\<close>
  copies as they are.
\<close>

subsection \<open>\<^verbatim>\<open>JSON.stringify\<close>\<close>

definition hexDigit :: "nat \<Rightarrow> char" where
  "hexDigit d = ''0123456789abcdef'' ! d"

text \<open>
  The quoting of one character: the two-character escapes, \<^verbatim>\<open>\u00XX\<close> for the other
  control characters, and every other character as it is.
\<close>

definition quoteChar :: "char \<Rightarrow> string" where
  "quoteChar c =
     (if c = CHR 0x08 then [CHR 0x5C, CHR ''b'']
      else if c = CHR 0x09 then [CHR 0x5C, CHR ''t'']
      else if c = CHR 0x0A then [CHR 0x5C, CHR ''n'']
      else if c = CHR 0x0C then [CHR 0x5C, CHR ''f'']
      else if c = CHR 0x0D then [CHR 0x5C, CHR ''r'']
      else if c = CHR 0x22 then [CHR 0x5C, CHR 0x22]
      else if c = CHR 0x5C then [CHR 0x5C, CHR 0x5C]
      else if (of_char c :: nat) < 32
      then [CHR 0x5C, CHR ''u'', CHR ''0'', CHR ''0'',
            hexDigit (of_char c div 16), hexDigit (of_char c mod 16)]
      else [c])"

definition quoteJSONString :: "string \<Rightarrow> string" where
  "quoteJSONString s = CHR 0x22 # concat (map quoteChar s) @ [CHR 0x22]"

fun stringifyMembers :: "(string \<times> string) list \<Rightarrow> string" where
  "stringifyMembers [] = []"
| "stringifyMembers [(k, v)] = quoteJSONString k @ '':'' @ quoteJSONString v"
| "stringifyMembers ((k, v) # m # ms) =
     quoteJSONString k @ '':'' @ quoteJSONString v @ '','' @ stringifyMembers (m # ms)"

definition JSON_stringify :: "(string \<times> string) list \<Rightarrow> string" where
  "JSON_stringify obj = ''{'' @ stringifyMembers obj @ ''}''"

subsection \<open>\<^verbatim>\<open>JSON.parse\<close>\<close>

text \<open>
  The result is \<^const>\<open>None\<close> wherever the text is outside what is modelled here: when
  it is not the text of an object whose members are all strings (\<^verbatim>\<open>JSON.parse\<close> throws
  a \<^verbatim>\<open>SyntaxError\<close> or returns a value of another shape), when it has an escape
  \<^verbatim>\<open>\uXXXX\<close> of a character outside ASCII (\<^verbatim>\<open>JSON.stringify\<close> writes none), and when a
  key is an array index such as \<^verbatim>\<open>"0"\<close> or \<^verbatim>\<open>"17"\<close> (JavaScript puts such properties
  first, whatever their place in the text).
\<close>

definition hexValue :: "char \<Rightarrow> nat option" where
  "hexValue c =
     (let n = of_char c in
      if 48 \<le> n \<and> n \<le> 57 then Some (n - 48)
      else if 97 \<le> n \<and> n \<le> 102 then Some (n - 87)
      else if 65 \<le> n \<and> n \<le> 70 then Some (n - 55)
      else None)"

definition hex4 :: "char \<Rightarrow> char \<Rightarrow> char \<Rightarrow> char \<Rightarrow> nat option" where
  "hex4 a b c d =
     (case (hexValue a, hexValue b, hexValue c, hexValue d) of
        (Some x, Some y, Some z, Some w) \<Rightarrow> Some (((x * 16 + y) * 16 + z) * 16 + w)
      | _ \<Rightarrow> None)"

definition unescape :: "char \<Rightarrow> char option" where
  "unescape e =
     (if e = CHR 0x22 then Some (CHR 0x22)
      else if e = CHR 0x5C then Some (CHR 0x5C)
      else if e = CHR ''/'' then Some (CHR ''/'')
      else if e = CHR ''b'' then Some (CHR 0x08)
      else if e = CHR ''f'' then Some (CHR 0x0C)
      else if e = CHR ''n'' then Some (CHR 0x0A)
      else if e = CHR ''r'' then Some (CHR 0x0D)
      else if e = CHR ''t'' then Some (CHR 0x09)
      else None)"

definition andThen :: "char \<Rightarrow> (string \<times> string) option \<Rightarrow> (string \<times> string) option" where
  "andThen c r = (case r of None \<Rightarrow> None | Some (s, rest) \<Rightarrow> Some (c # s, rest))"

text \<open>
  The characters of a string literal after its opening quote, up to the closing one:
  the string they stand for, and the text that follows.
\<close>

fun unquote :: "string \<Rightarrow> (string \<times> string) option" where
  "unquote [] = None"
| "unquote (c # cs) =
     (if c = CHR 0x22 then Some ([], cs)
      else if c = CHR 0x5C then
        (case cs of
           [] \<Rightarrow> None
         | e # cs1 \<Rightarrow>
             if e = CHR ''u'' then
               (case cs1 of
                  h1 # h2 # h3 # h4 # cs2 \<Rightarrow>
                    (case hex4 h1 h2 h3 h4 of
                       None \<Rightarrow> None
                     | Some v \<Rightarrow> if v < 128 then andThen (char_of v) (unquote cs2) else None)
                | _ \<Rightarrow> None)
             else
               (case unescape e of
                  None \<Rightarrow> None
                | Some ch \<Rightarrow> andThen ch (unquote cs1)))
      else if (of_char c :: nat) < 32 then None
      else andThen c (unquote cs))"

lemma unquote_shorter: "unquote cs = Some (s, rest) \<Longrightarrow> length rest < length cs"
proof (induction cs arbitrary: s rest rule: unquote.induct)
  case 1
  then show ?case by simp
next
  case (2 c cs)
  then show ?case
    by (auto simp: andThen_def split: if_splits list.splits option.splits prod.splits) fastforce+
qed

datatype token = LBrace | RBrace | Colon | Comma | Str string

definition isSpace :: "char \<Rightarrow> bool" where
  "isSpace c = (c = CHR '' '' \<or> c = CHR 0x09 \<or> c = CHR 0x0A \<or> c = CHR 0x0D)"

definition consToken :: "token \<Rightarrow> token list option \<Rightarrow> token list option" where
  "consToken t r = map_option (Cons t) r"

function tokens :: "string \<Rightarrow> token list option" where
  "tokens [] = Some []"
| "tokens (c # cs) =
     (if isSpace c then tokens cs
      else if c = CHR ''{'' then consToken LBrace (tokens cs)
      else if c = CHR ''}'' then consToken RBrace (tokens cs)
      else if c = CHR '':'' then consToken Colon (tokens cs)
      else if c = CHR '','' then consToken Comma (tokens cs)
      else if c = CHR 0x22 then
        (case unquote cs of
           None \<Rightarrow> None
         | Some (s, rest) \<Rightarrow> consToken (Str s) (tokens rest))
      else None)"
  by pat_completeness auto
termination
proof (relation "measure length", goal_cases)
  case (7 c cs x2 x y)
  then have "unquote cs = Some (x, y)" by simp
  then have "length y < length cs" by (rule unquote_shorter)
  then show ?case by simp
qed simp_all

fun members :: "token list \<Rightarrow> (string \<times> string) list option" where
  "members (Str k # Colon # Str v # Comma # ts) = map_option (Cons (k, v)) (members ts)"
| "members (Str k # Colon # Str v # RBrace # ts) = (if ts = [] then Some [(k, v)] else None)"
| "members ts = None"

definition parseObject :: "token list \<Rightarrow> (string \<times> string) list option" where
  "parseObject ts =
     (case ts of
        LBrace # RBrace # ts' \<Rightarrow> if ts' = [] then Some [] else None
      | LBrace # ts' \<Rightarrow> members ts'
      | _ \<Rightarrow> None)"

text \<open>A key that occurs again keeps its place and takes the later value.\<close>

fun setProperty ::
  "string \<Rightarrow> string \<Rightarrow> (string \<times> string) list \<Rightarrow> (string \<times> string) list" where
  "setProperty k v [] = [(k, v)]"
| "setProperty k v ((k', v') # ps) =
     (if k' = k then (k, v) # ps else (k', v') # setProperty k v ps)"

definition objectOf :: "(string \<times> string) list \<Rightarrow> (string \<times> string) list" where
  "objectOf ms = foldl (\<lambda>obj (k, v). setProperty k v obj) [] ms"

definition arrayIndexKey :: "string \<Rightarrow> bool" where
  "arrayIndexKey k = (k \<noteq> [] \<and> list_all isDigit k \<and> (k = ''0'' \<or> hd k \<noteq> CHR ''0''))"

definition JSON_parse :: "string \<Rightarrow> (string \<times> string) list option" where
  "JSON_parse text =
     (case tokens text of
        None \<Rightarrow> None
      | Some ts \<Rightarrow>
          (case parseObject ts of
             None \<Rightarrow> None
           | Some ms \<Rightarrow>
               if list_ex (\<lambda>(k, v). arrayIndexKey k) ms then None else Some (objectOf ms)))"

subsection \<open>The two functions, and credentials as objects\<close>

definition formatCredentialsForStorage :: "(string \<times> string) list \<Rightarrow> string" where
  "formatCredentialsForStorage obj = JSON_stringify obj"

definition parseCredentialsFromStorage :: "string \<Rightarrow> (string \<times> string) list option" where
  "parseCredentialsFromStorage storedCredentials = JSON_parse storedCredentials"

text \<open>
  The object a credentials value is: its properties, in the order of the interface. A
  property whose value is \<^verbatim>\<open>undefined\<close> is not written by \<^verbatim>\<open>JSON.stringify\<close>, so it
  is left out here. \<open>asCredentials\<close> reads an object as credentials.
\<close>

definition property :: "string \<Rightarrow> string option \<Rightarrow> (string \<times> string) list" where
  "property k v = (case v of None \<Rightarrow> [] | Some x \<Rightarrow> [(k, x)])"

definition credentialsObject :: "AuthenticationCredentials \<Rightarrow> (string \<times> string) list" where
  "credentialsObject c =
     [(''publicKey'', publicKey c), (''privateKey'', privateKey c)]
     @ property ''serverPublicKey'' (serverPublicKey c)
     @ property ''qrCode'' (qrCode c)
     @ property ''pairingCode'' (pairingCode c)
     @ property ''session'' (session c)"

definition asCredentials :: "(string \<times> string) list \<Rightarrow> AuthenticationCredentials option" where
  "asCredentials obj =
     (case (map_of obj ''publicKey'', map_of obj ''privateKey'') of
        (Some pk, Some sk) \<Rightarrow>
          Some \<lparr>publicKey = pk, privateKey = sk,
                serverPublicKey = map_of obj ''serverPublicKey'',
                qrCode = map_of obj ''qrCode'',
                pairingCode = map_of obj ''pairingCode'',
                session = map_of obj ''session''\<rparr>
      | _ \<Rightarrow> None)"

section \<open>The vocabulary of the specification\<close>

text \<open>
  The states the connection can reach: from a new connection, by any call of a public
  method, any continuation of one, any callback of a timer, any event of the socket while
  there is one, and anything the caller does with the objects on the heap. A call of
  \<^verbatim>\<open>connect\<close> or \<^verbatim>\<open>connectWithCredentials\<close> is one step, from its start to its end.
\<close>

inductive reachable :: "platform \<Rightarrow> state \<Rightarrow> bool" for P :: platform where
  r_new: "reachable P (newConnection opts)"
| r_connect: "reachable P s \<Longrightarrow> reachable P (snd (connect P outcome s))"
| r_connectWithCredentials:
    "reachable P s \<Longrightarrow> reachable P (snd (connectWithCredentials P outcome creds s))"
| r_disconnect: "reachable P s \<Longrightarrow> reachable P (disconnect s)"
| r_requestQRCode: "reachable P s \<Longrightarrow> reachable P (snd (requestQRCode P keys u s))"
| r_requestQRCode_resume:
    "reachable P s \<Longrightarrow> reachable P (snd (requestQRCode_resume keypair result s))"
| r_requestPairingCode: "reachable P s \<Longrightarrow> reachable P (snd (requestPairingCode P keys u s))"
| r_requestPairingCode_resume:
    "reachable P s \<Longrightarrow> reachable P (snd (requestPairingCode_resume keypair result s))"
| r_waitForAuthentication: "reachable P s \<Longrightarrow> reachable P (snd (waitForAuthentication s))"
| r_send: "reachable P s \<Longrightarrow> reachable P (snd (send P message s))"
| r_sendRequest: "reachable P s \<Longrightarrow> reachable P (snd (sendRequest P request timeout u s))"
| r_runMicrotasks: "reachable P s \<Longrightarrow> reachable P (runMicrotasks s)"
| r_timeoutFires: "reachable P s \<Longrightarrow> reachable P (timeoutFires i s)"
| r_keepAliveTick: "reachable P s \<Longrightarrow> reachable P (keepAliveTick P s)"
| r_ws_on_message: "reachable P s \<Longrightarrow> ws s \<noteq> None \<Longrightarrow> reachable P (ws_on_message P d s)"
| r_handleIncomingMessage:
    "reachable P s \<Longrightarrow> ws s \<noteq> None \<Longrightarrow> reachable P (handleIncomingMessage P message s)"
| r_ws_on_close: "reachable P s \<Longrightarrow> ws s \<noteq> None \<Longrightarrow> reachable P (ws_on_close code reason s)"
| r_ws_on_error: "reachable P s \<Longrightarrow> ws s \<noteq> None \<Longrightarrow> reachable P (ws_on_error msg s)"
| r_newObject: "reachable P s \<Longrightarrow> reachable P (snd (newObject c s))"
| r_mutateObject: "reachable P s \<Longrightarrow> reachable P (mutateObject a f s)"

text \<open>Invariant (a): the state is \<open>connected\<close> only with credentials stored.\<close>

definition credentialed :: "state \<Rightarrow> bool" where
  "credentialed s = (authState s = Connected \<longrightarrow> credentials s \<noteq> None)"

text \<open>A queued promise reaction that belongs to one of the first \<open>n\<close> promises.\<close>

definition queuedWithin :: "nat \<Rightarrow> microtask \<Rightarrow> bool" where
  "queuedWithin n t = (case t of SendRequestCatch tag i q err \<Rightarrow> q < n | PingCatch err \<Rightarrow> True)"

text \<open>
  Two more facts of every reachable state: while the state is \<open>disconnected\<close> no socket
  is open, and every queued promise reaction belongs to a promise that exists.
\<close>

definition consistent :: "state \<Rightarrow> bool" where
  "consistent s =
     ((authState s = Disconnected \<longrightarrow> ws s \<noteq> Some OPEN)
      \<and> list_all (queuedWithin (length (promises s))) (microtasks s))"

text \<open>
  The dispatcher's view of an inbound message: whether it answers a pending request, and
  otherwise which of the push events it is.
\<close>

definition answersPending :: "envelope \<Rightarrow> state \<Rightarrow> bool" where
  "answersPending m s =
     (case env_tag m of None \<Rightarrow> False | Some t \<Rightarrow> t \<noteq> [] \<and> msgRetryCache s t \<noteq> None)"

datatype pushKind = AuthSuccess | InboundMessage | MessageCreated | MessageRevoked
  | PresenceUpdated | GroupUpdated | UnknownKind

definition kindOf :: "string option \<Rightarrow> pushKind" where
  "kindOf ty =
     (if ty = Some ''auth_success'' then AuthSuccess
      else if ty = Some ''message'' then InboundMessage
      else if ty = Some ''message_create'' then MessageCreated
      else if ty = Some ''message_revoke'' then MessageRevoked
      else if ty = Some ''presence_update'' then PresenceUpdated
      else if ty = Some ''group_update'' then GroupUpdated
      else UnknownKind)"

text \<open>The events of the reconnection loop among those a client has emitted.\<close>

definition reconnectEvents :: "clientEvent list \<Rightarrow> clientEvent list" where
  "reconnectEvents es =
     filter (\<lambda>e. case e of ClReconnecting n \<Rightarrow> True | ClReconnected \<Rightarrow> True
                  | ClReconnectFailed \<Rightarrow> True | _ \<Rightarrow> False) es"

text \<open>
  \<open>n\<close> delays elapse one after the other, each time that of the call suspended for the
  longest (the delays are equally long, so they elapse in the order in which they have
  begun); \<open>outcomes j\<close> says what the socket of the attempt that follows the \<open>j\<close>-th of
  them does.
\<close>

fun delaysElapse :: "platform \<Rightarrow> (nat \<Rightarrow> openOutcome) \<Rightarrow> nat \<Rightarrow> client \<Rightarrow> client" where
  "delaysElapse P outcomes 0 c = c"
| "delaysElapse P outcomes (Suc n) c =
     delayElapsed P (outcomes n) 0 (delaysElapse P outcomes n c)"

text \<open>The \<^verbatim>\<open>reconnecting\<close> events among those a client has emitted.\<close>

definition reconnectings :: "clientEvent list \<Rightarrow> clientEvent list" where
  "reconnectings es = filter (\<lambda>e. case e of ClReconnecting n \<Rightarrow> True | _ \<Rightarrow> False) es"

text \<open>Reading a decimal numeral back.\<close>

definition digitValue :: "char \<Rightarrow> nat" where
  "digitValue c = of_char c - 48"

definition fromDecimal :: "string \<Rightarrow> nat" where
  "fromDecimal cs = foldl (\<lambda>a c. 10 * a + digitValue c) 0 cs"

text \<open>The tokens of the members of an object.\<close>

fun memberTokens :: "(string \<times> string) list \<Rightarrow> token list" where
  "memberTokens [] = []"
| "memberTokens [(k, v)] = [Str k, Colon, Str v]"
| "memberTokens ((k, v) # m # ms) = Str k # Colon # Str v # Comma # memberTokens (m # ms)"

section \<open>Example states\<close>

text \<open>
  A platform whose encryption succeeds, the default options, and the states the
  theorems below are tried on: a connection that has been opened, one with a request
  pending, one that waits for the QR code to be scanned, one resumed with stored
  credentials, a client whose socket has just closed, and a client whose first
  connection, with stored credentials and one reconnection attempt allowed, has met a
  socket that fails to open.
\<close>

definition examplePlatform :: platform where
  "examplePlatform = \<lparr>encrypt = (\<lambda>m k. Inr ''ciphertext''),
     decode = (\<lambda>d k. Inl (Thrown ''Unexpected token'')), parseMessageNode = (\<lambda>d. d)\<rparr>"

definition exampleOptions :: ClientOptions where
  "exampleOptions = \<lparr>restartOnConnectionLost = True, maxReconnectAttempts = 5,
     reconnectInterval = 3000, logLevel = ''info'', browser = None\<rparr>"

definition exampleRequest :: request where
  "exampleRequest = \<lparr>req_tag = None, req_type = Some ''message'', req_data = ''{}''\<rparr>"

definition exampleCredentials :: AuthenticationCredentials where
  "exampleCredentials = \<lparr>publicKey = ''public-key'', privateKey = ''private-key'',
     serverPublicKey = Some ''server-key'', qrCode = None, pairingCode = None,
     session = Some ''abc''\<rparr>"

definition half :: double where
  "half = \<lparr>significand = 1, exponent = - 1\<rparr>"

text \<open>The doubles that the literals \<^verbatim>\<open>0.5000001\<close>, \<^verbatim>\<open>0.29\<close> and \<^verbatim>\<open>0.2900005\<close> denote.\<close>

definition nearHalf :: double where
  "nearHalf = \<lparr>significand = 4503600528090421, exponent = - 53\<rparr>"

definition point29 :: double where
  "point29 = \<lparr>significand = 5224175567749775, exponent = - 54\<rparr>"

definition nearPoint29 :: double where
  "nearPoint29 = \<lparr>significand = 2612092287474515, exponent = - 53\<rparr>"

definition openedConnection :: state where
  "openedConnection = snd (connect examplePlatform Opens (newConnection exampleOptions))"

definition oneRequestPending :: state where
  "oneRequestPending =
     snd (sendRequest examplePlatform exampleRequest 30000 half openedConnection)"

definition twoRequestsSent :: state where
  "twoRequestsSent =
     snd (sendRequest examplePlatform exampleRequest 30000 nearHalf
            oneRequestPending)"

definition qrResponse :: envelope where
  "qrResponse = \<lparr>env_tag = Some ''request_qr'', env_type = None, env_data = ''{}'',
     env_error = None, env_credentials = None, env_serverPublicKey = Some ''server-key'',
     env_qrCode = Some ''qr-data'', env_pairingCode = None\<rparr>"

definition awaitingScan :: state where
  "awaitingScan =
     (let s = snd (requestQRCode examplePlatform (Inr (''public-key'', ''private-key''))
                     half openedConnection);
          s = handleIncomingMessage examplePlatform qrResponse s;
          s = snd (requestQRCode_resume (''public-key'', ''private-key'') (Inr qrResponse) s)
      in snd (waitForAuthentication s))"

definition resumedConnection :: state where
  "resumedConnection =
     snd (connectWithCredentials examplePlatform Opens 0
            (snd (newObject exampleCredentials (newConnection exampleOptions))))"

definition emptyErrorResponse :: envelope where
  "emptyErrorResponse = \<lparr>env_tag = Some ''500000'', env_type = None, env_data = ''{}'',
     env_error = Some [], env_credentials = None, env_serverPublicKey = None,
     env_qrCode = None, env_pairingCode = None\<rparr>"

definition errorResponse :: envelope where
  "errorResponse = \<lparr>env_tag = Some ''500000'', env_type = None, env_data = ''{}'',
     env_error = Some ''not-authorized'', env_credentials = None, env_serverPublicKey = None,
     env_qrCode = None, env_pairingCode = None\<rparr>"

definition unknownPush :: envelope where
  "unknownPush = \<lparr>env_tag = None, env_type = Some ''call_offer'', env_data = ''{}'',
     env_error = None, env_credentials = None, env_serverPublicKey = None,
     env_qrCode = None, env_pairingCode = None\<rparr>"

definition resumedClient :: client where
  "resumedClient =
     snd (clientConnect examplePlatform Opens (Some 0)
            ((newClient exampleOptions)
               \<lparr>connection := snd (newObject exampleCredentials (newConnection exampleOptions))\<rparr>))"

definition droppedClient :: client where
  "droppedClient = socketCloses 1006 ''abnormal'' resumedClient"

definition oneAttemptOptions :: ClientOptions where
  "oneAttemptOptions = exampleOptions\<lparr>maxReconnectAttempts := 1\<rparr>"

definition unreachableClient :: client where
  "unreachableClient =
     snd (clientConnect examplePlatform (OpenFails ''ECONNREFUSED'') (Some 0)
            ((newClient oneAttemptOptions)
               \<lparr>connection :=
                  snd (newObject exampleCredentials (newConnection oneAttemptOptions))\<rparr>))"

section \<open>Facts about the primitives and the example states\<close>

lemmas example_defs = examplePlatform_def exampleOptions_def exampleRequest_def
  exampleCredentials_def

lemmas op_defs = newConnection_def connect_def initializeConnection_def send_def ws_on_open_def
  ws_on_error_def logger_def emit_def startKeepAlive_def newPromise_def setTimeout_def
  clearTimeout_def sendRequest_def assignTag_def truthy_def generateMessageTag_def toString_def
  digitChar_def decimal.simps DEFAULT_WA_WEB_VERSION_def newObject_def Let_def
  ws_on_close_def handleConnectionClose_def disconnect_def

lemmas double_defs = tagNumber_def Math_floor_def multiply_def million_def roundToDouble_def
  bitLength.simps half_def nearHalf_def point29_def nearPoint29_def

lemmas auth_defs = requestQRCode_def requestQRCode_resume_def waitForAuthentication_def
  setupAuthenticationPromise_def handleIncomingMessage_def pendingFor_def cb_resolve_def
  cb_reject_def settle_def qrResponse_def

lemma settle_length [simp]: "length (promises (settle p v s)) = length (promises s)"
  by (simp add: settle_def)

lemma settle_other: "q \<noteq> p \<Longrightarrow> promises (settle p v s) ! q = promises s ! q"
  by (simp add: settle_def)

lemma settle_pending:
  "p < length (promises s) \<Longrightarrow> promises s ! p = Pending \<Longrightarrow> promises (settle p v s) ! p = v"
  by (simp add: settle_def)

lemma settle_fields [simp]:
  "sent (settle p v s) = sent s" "msgRetryCache (settle p v s) = msgRetryCache s"
  "timers (settle p v s) = timers s" "microtasks (settle p v s) = microtasks s"
  "authState (settle p v s) = authState s" "credentials (settle p v s) = credentials s"
  "ws (settle p v s) = ws s" "emitted (settle p v s) = emitted s"
  "logged (settle p v s) = logged s" "heap (settle p v s) = heap s"
  "authPromise (settle p v s) = authPromise s" "authResolve (settle p v s) = authResolve s"
  "authReject (settle p v s) = authReject s" "options (settle p v s) = options s"
  "keepAliveInterval (settle p v s) = keepAliveInterval s"
  "nextAddress (settle p v s) = nextAddress s"
  by (simp_all add: settle_def)

lemma openedConnection_eq:
  "openedConnection = (newConnection exampleOptions)\<lparr>ws := Some OPEN,
     authState := Connecting, keepAliveInterval := True,
     sent := [Plain (InitMsg ''2.2345.0'' (''Chrome'', ''96.0.4664.110''))],
     logged := [(Info, ''WebSocket connection opened''),
                (Info, ''Successfully connected to WhatsApp Web'')]\<rparr>"
  by (simp add: openedConnection_def example_defs op_defs)

lemma oneRequestPending_fields:
  "msgRetryCache oneRequestPending ''500000''
     = Some \<lparr>cb_tag = ''500000'', cb_timer = 0, cb_promise = 0\<rparr>"
  "promises oneRequestPending = [Pending]"
  "timers oneRequestPending = [Some \<lparr>t_tag = ''500000'', t_promise = 0, t_timeout = 30000\<rparr>]"
  "ws oneRequestPending = Some OPEN"
  "credentials oneRequestPending = None"
  "microtasks oneRequestPending = []"
  "sent oneRequestPending =
     [Plain (InitMsg ''2.2345.0'' (''Chrome'', ''96.0.4664.110'')),
      Plain (RequestMsg \<lparr>req_tag = Some ''500000'', req_type = Some ''message'',
                          req_data = ''{}''\<rparr>)]"
  by (simp_all add: oneRequestPending_def openedConnection_eq example_defs op_defs double_defs)

lemma awaitingScan_fields:
  "authState awaitingScan = Authenticating"
  "authPromise awaitingScan = Some 1" "authReject awaitingScan = Some 1"
  "promises awaitingScan = [Fulfilled (Some qrResponse), Pending]"
  "credentials awaitingScan = Some 0"
  "fst (waitForAuthentication awaitingScan) = Inr (Some 1)"
  "ws awaitingScan = Some OPEN"
  by (simp_all add: awaitingScan_def openedConnection_eq example_defs op_defs auth_defs)

lemma resumedConnection_fields:
  "authState resumedConnection = Connected" "credentials resumedConnection = Some 0"
  "heap resumedConnection 0 = exampleCredentials"
  "ws resumedConnection = Some OPEN"
  "emitted resumedConnection = [EvOpen]"
  by (simp_all add: resumedConnection_def connectWithCredentials_def authenticate_def
        examplePlatform_def exampleOptions_def op_defs)

lemma resumedClient_fields:
  "connection resumedClient = resumedConnection"
  "client_credentials resumedClient = Some 0"
  "client_options resumedClient = exampleOptions"
  "client_emitted resumedClient = [ClConnecting, ClReady]"
  "client_state resumedClient = Connected"
  "client_waiting resumedClient = []"
proof -
  let ?k = "snd (newObject exampleCredentials (newConnection exampleOptions))"
  have ok: "fst (connectWithCredentials examplePlatform Opens 0 ?k) = Inr ()"
    by (simp add: connectWithCredentials_def authenticate_def examplePlatform_def
          exampleOptions_def op_defs)
  have e0: "emitted ?k = []"
    by (simp add: newObject_def newConnection_def)
  have cw: "connectWithCredentials examplePlatform Opens 0 ?k = (Inr (), resumedConnection)"
    using ok by (simp add: resumedConnection_def prod_eq_iff)
  show "connection resumedClient = resumedConnection"
    "client_credentials resumedClient = Some 0"
    "client_options resumedClient = exampleOptions"
    "client_emitted resumedClient = [ClConnecting, ClReady]"
    "client_state resumedClient = Connected"
    "client_waiting resumedClient = []"
    by (simp_all add: resumedClient_def clientConnect_def cw e0 returned_def newClient_def
          clientLogger_def clientEmit_def resumedConnection_fields Let_def)
qed

lemma droppedClient_fields:
  "client_credentials droppedClient = Some 0"
  "client_options droppedClient = exampleOptions"
  "client_emitted droppedClient = [ClConnecting, ClReady, ClDisconnected, ClReconnecting 1]"
  "client_waiting droppedClient = [1]"
  "ws (connection droppedClient) = Some CLOSED"
  by (simp_all add: droppedClient_def socketCloses_def returned_def resumedClient_fields
        resumedConnection_fields ws_on_close_def handleConnectionClose_def logger_def emit_def
        clientEmit_def clientLogger_def handleReconnection_def reconnectLoop_def
        exampleOptions_def Let_def
      split: option.splits)

lemma oneAttemptOptions_fields:
  "maxReconnectAttempts oneAttemptOptions = 1" "restartOnConnectionLost oneAttemptOptions"
  by (simp_all add: oneAttemptOptions_def exampleOptions_def)

lemma unreachableClient_fields:
  "client_credentials unreachableClient = Some 0"
  "client_options unreachableClient = oneAttemptOptions"
  "client_emitted unreachableClient
     = [ClConnecting, ClDisconnected, ClReconnecting 1,
        ClConnectionFailed (Thrown ''ECONNREFUSED'')]"
  "client_waiting unreachableClient = [1]"
  "ws (connection unreachableClient) = None"
  "emitted (connection unreachableClient) = [EvConnectionError ''ECONNREFUSED'', EvClose 1006 []]"
proof -
  let ?k = "snd (newObject exampleCredentials (newConnection oneAttemptOptions))"
  have e0: "emitted ?k = []"
    by (simp add: newObject_def newConnection_def)
  have cw: "fst (connectWithCredentials examplePlatform (OpenFails ''ECONNREFUSED'') 0 ?k)
              = Inl (Thrown ''ECONNREFUSED'')"
    "emitted (snd (connectWithCredentials examplePlatform (OpenFails ''ECONNREFUSED'') 0 ?k))
       = [EvConnectionError ''ECONNREFUSED'', EvClose 1006 []]"
    "ws (snd (connectWithCredentials examplePlatform (OpenFails ''ECONNREFUSED'') 0 ?k)) = None"
    by (simp_all add: connectWithCredentials_def op_defs split: option.splits)
  obtain r k where rk:
    "connectWithCredentials examplePlatform (OpenFails ''ECONNREFUSED'') 0 ?k = (r, k)"
    by (cases "connectWithCredentials examplePlatform (OpenFails ''ECONNREFUSED'') 0 ?k")
  with cw have r: "r = Inl (Thrown ''ECONNREFUSED'')"
    and k: "emitted k = [EvConnectionError ''ECONNREFUSED'', EvClose 1006 []]" "ws k = None"
    by simp_all
  show "client_credentials unreachableClient = Some 0"
    "client_options unreachableClient = oneAttemptOptions"
    "client_emitted unreachableClient
       = [ClConnecting, ClDisconnected, ClReconnecting 1,
          ClConnectionFailed (Thrown ''ECONNREFUSED'')]"
    "client_waiting unreachableClient = [1]"
    "ws (connection unreachableClient) = None"
    "emitted (connection unreachableClient)
       = [EvConnectionError ''ECONNREFUSED'', EvClose 1006 []]"
    by (simp_all add: unreachableClient_def clientConnect_def rk r k e0 returned_def
          newClient_def clientLogger_def clientEmit_def connectionFailed_def
          handleReconnection_def reconnectLoop_def oneAttemptOptions_fields Let_def)
qed

section \<open>Disconnecting with requests pending\<close>

text \<open>
  C1, as the specification states it, fails: \<^verbatim>\<open>disconnect\<close> clears the registry and
  rejects nothing. With one request sent on an open connection and not yet answered, the
  promise of the request is still pending after \<^verbatim>\<open>disconnect\<close>.
\<close>

theorem disconnect_rejects_nothing_counterexample:
  "msgRetryCache oneRequestPending ''500000''
     = Some \<lparr>cb_tag = ''500000'', cb_timer = 0, cb_promise = 0\<rparr>
   \<and> promises oneRequestPending ! 0 = Pending
   \<and> promises (disconnect oneRequestPending) ! 0 = Pending"
  by (simp add: oneRequestPending_fields disconnect_def logger_def Let_def)

text \<open>
  C1, amended. After \<^verbatim>\<open>disconnect\<close> the registry is empty, and no promise has changed:
  a request that was pending (registered under its tag, its promise pending, its timer
  armed) is still pending. Its promise is rejected later, by its own timer, with the
  error of a request that timed out.
\<close>

theorem disconnect_drops_registry:
  assumes "msgRetryCache s tag = Some cb"
    and "cb_promise cb < length (promises s)" and "promises s ! cb_promise cb = Pending"
    and "cb_timer cb < length (timers s)"
    and "timers s ! cb_timer cb = Some \<lparr>t_tag = tag, t_promise = cb_promise cb, t_timeout = ms\<rparr>"
  shows "msgRetryCache (disconnect s) = Map.empty
       \<and> promises (disconnect s) = promises s
       \<and> promises (disconnect s) ! cb_promise cb = Pending
       \<and> promises (timeoutFires (cb_timer cb) (disconnect s)) ! cb_promise cb
            = Rejected (RequestTimedOut tag ms)"
  using assms
  by (simp add: disconnect_def logger_def timeoutFires_def clearTimeout_def settle_def Let_def)

theorem disconnect_drops_registry_witness:
  "msgRetryCache oneRequestPending ''500000''
     = Some \<lparr>cb_tag = ''500000'', cb_timer = 0, cb_promise = 0\<rparr>
   \<and> msgRetryCache (disconnect oneRequestPending) = Map.empty
   \<and> promises (disconnect oneRequestPending) ! 0 = Pending
   \<and> promises (timeoutFires 0 (disconnect oneRequestPending)) ! 0
        = Rejected (RequestTimedOut ''500000'' 30000)"
  using disconnect_drops_registry [of oneRequestPending "''500000''"
      "\<lparr>cb_tag = ''500000'', cb_timer = 0, cb_promise = 0\<rparr>" 30000]
  by (simp add: oneRequestPending_fields)

section \<open>Requests on a connection that is not open\<close>

subsection \<open>In a reachable state, \<open>disconnected\<close> means that no socket is open\<close>

lemma queued_mono:
  "list_all (queuedWithin n) ts \<Longrightarrow> n \<le> m \<Longrightarrow> list_all (queuedWithin m) ts"
  by (induction ts) (auto simp: queuedWithin_def split: microtask.splits)

lemma consistentI:
  assumes "consistent s"
    and "authState s' = Disconnected \<longrightarrow> ws s' \<noteq> Some OPEN"
    and "length (promises s) \<le> length (promises s')"
    and "microtasks s' = microtasks s \<or> microtasks s' = []
         \<or> (\<exists>tag i q err. microtasks s' = microtasks s @ [SendRequestCatch tag i q err]
               \<and> q < length (promises s'))
         \<or> (\<exists>err. microtasks s' = microtasks s @ [PingCatch err])"
  shows "consistent s'"
proof -
  from assms(1) have "list_all (queuedWithin (length (promises s))) (microtasks s)"
    by (simp add: consistent_def)
  then have m: "list_all (queuedWithin (length (promises s'))) (microtasks s)"
    using assms(3) by (rule queued_mono)
  from assms(4) consider (same) "microtasks s' = microtasks s" | (none) "microtasks s' = []"
    | (req) tag i q err where "microtasks s' = microtasks s @ [SendRequestCatch tag i q err]"
        "q < length (promises s')"
    | (ping) err where "microtasks s' = microtasks s @ [PingCatch err]"
    by blast
  then have "list_all (queuedWithin (length (promises s'))) (microtasks s')"
  proof cases
    case same
    with m show ?thesis by simp
  next
    case none
    then show ?thesis by simp
  next
    case req
    with m show ?thesis by (simp add: queuedWithin_def)
  next
    case ping
    with m show ?thesis by (simp add: queuedWithin_def)
  qed
  with assms(2) show ?thesis by (simp add: consistent_def)
qed

lemma send_shape:
  "send P m s = (r, k) \<Longrightarrow>
   authState k = authState s \<and> ws k = ws s \<and> promises k = promises s
   \<and> microtasks k = microtasks s"
  by (auto simp: send_def logger_def split: option.splits sum.splits if_splits)

lemma disconnect_shape:
  "authState (disconnect s) = Disconnected \<and> ws (disconnect s) = None
   \<and> promises (disconnect s) = promises s \<and> microtasks (disconnect s) = microtasks s"
  by (simp add: disconnect_def logger_def Let_def)

lemma consistent_disconnect: "consistent s \<Longrightarrow> consistent (disconnect s)"
  by (rule consistentI [of s]) (simp_all add: disconnect_shape)

lemma consistent_send:
  assumes "consistent s"
  shows "consistent (snd (send P m s))"
proof -
  obtain r k where sd: "send P m s = (r, k)" by (cases "send P m s")
  from send_shape [OF sd] assms have "consistent k"
    by (intro consistentI [OF assms]) (simp_all add: consistent_def)
  with sd show ?thesis by simp
qed

lemma sendRequest_shape:
  "authState (snd (sendRequest P r t u s)) = authState s
   \<and> ws (snd (sendRequest P r t u s)) = ws s
   \<and> length (promises (snd (sendRequest P r t u s))) = Suc (length (promises s))
   \<and> (microtasks (snd (sendRequest P r t u s)) = microtasks s
      \<or> (\<exists>tag i err. microtasks (snd (sendRequest P r t u s))
            = microtasks s @ [SendRequestCatch tag i (length (promises s)) err]))"
proof -
  let ?s1 = "s\<lparr>promises := promises s @ [Pending],
      timers := timers s @ [Some \<lparr>t_tag = assignTag r u, t_promise = length (promises s),
                                t_timeout = t\<rparr>],
      msgRetryCache := (msgRetryCache s)(assignTag r u \<mapsto>
         \<lparr>cb_tag = assignTag r u, cb_timer = length (timers s),
          cb_promise = length (promises s)\<rparr>)\<rparr>"
  obtain x k where sd: "send P (RequestMsg (r\<lparr>req_tag := Some (assignTag r u)\<rparr>)) ?s1 = (x, k)"
    by (cases "send P (RequestMsg (r\<lparr>req_tag := Some (assignTag r u)\<rparr>)) ?s1")
  from send_shape [OF sd] have k: "authState k = authState s" "ws k = ws s"
    "promises k = promises s @ [Pending]" "microtasks k = microtasks s" by simp_all
  show ?thesis
  proof (cases x)
    case (Inl err)
    with sd have "snd (sendRequest P r t u s) = k\<lparr>microtasks := microtasks k @
        [SendRequestCatch (assignTag r u) (length (timers s)) (length (promises s)) err]\<rparr>"
      by (simp add: sendRequest_def newPromise_def setTimeout_def Let_def)
    then show ?thesis by (simp add: k)
  next
    case (Inr v)
    with sd have "snd (sendRequest P r t u s) = k"
      by (simp add: sendRequest_def newPromise_def setTimeout_def Let_def)
    then show ?thesis by (simp add: k)
  qed
qed

lemma consistent_sendRequest:
  assumes "consistent s"
  shows "consistent (snd (sendRequest P r t u s))"
proof (rule consistentI [OF assms])
  show "authState (snd (sendRequest P r t u s)) = Disconnected
        \<longrightarrow> ws (snd (sendRequest P r t u s)) \<noteq> Some OPEN"
    using assms by (simp add: sendRequest_shape consistent_def)
  show "length (promises s) \<le> length (promises (snd (sendRequest P r t u s)))"
    by (simp add: sendRequest_shape)
  from sendRequest_shape [of P r t u s]
  show "microtasks (snd (sendRequest P r t u s)) = microtasks s
        \<or> microtasks (snd (sendRequest P r t u s)) = []
        \<or> (\<exists>tag i q err. microtasks (snd (sendRequest P r t u s))
               = microtasks s @ [SendRequestCatch tag i q err]
               \<and> q < length (promises (snd (sendRequest P r t u s))))
        \<or> (\<exists>err. microtasks (snd (sendRequest P r t u s)) = microtasks s @ [PingCatch err])"
    by (elim conjE disjE exE) simp_all
qed

lemma consistent_frame:
  assumes "consistent s" and "authState s' = authState s" and "ws s' = ws s"
    and "promises s' = promises s" and "microtasks s' = microtasks s"
  shows "consistent s'"
  using assms by (simp add: consistent_def)

lemma consistent_connect:
  assumes "consistent s"
  shows "consistent (snd (connect P outcome s))"
proof (cases "ws s \<noteq> None")
  case True
  with assms show ?thesis by (simp add: connect_def)
next
  case False
  let ?s0 = "s\<lparr>authState := Connecting, ws := Some CONNECTING\<rparr>"
  show ?thesis
  proof (cases outcome)
    case (OpenFails msg)
    have "consistent (disconnect (logger Error ''Failed to connect:''
            (ws_on_close 1006 [] (ws_on_error msg (?s0\<lparr>ws := Some CLOSING\<rparr>)))))"
      by (intro consistentI [OF assms])
         (simp_all add: disconnect_shape logger_def ws_on_error_def ws_on_close_def
            handleConnectionClose_def emit_def Let_def split: option.splits)
    with False OpenFails show ?thesis by (simp add: connect_def Let_def)
  next
    case Opens
    obtain r k where i: "initializeConnection P (ws_on_open ?s0) = (r, k)"
      by (cases "initializeConnection P (ws_on_open ?s0)")
    from send_shape [OF i [unfolded initializeConnection_def]]
    have k: "authState k = Connecting" "ws k = Some OPEN" "promises k = promises s"
      "microtasks k = microtasks s"
      by (simp_all add: ws_on_open_def logger_def)
    show ?thesis
    proof (cases r)
      case (Inl err)
      have "consistent (disconnect (logger Error ''Failed to connect:'' k))"
        by (intro consistentI [OF assms]) (simp_all add: disconnect_shape logger_def k)
      with False Opens i Inl show ?thesis by (simp add: connect_def Let_def)
    next
      case (Inr u)
      have "consistent (logger Info ''Successfully connected to WhatsApp Web'' (startKeepAlive k))"
        by (intro consistentI [OF assms]) (simp_all add: logger_def startKeepAlive_def k)
      with False Opens i Inr show ?thesis by (simp add: connect_def Let_def)
    qed
  qed
qed

lemma consistent_connectWithCredentials:
  assumes "consistent s"
  shows "consistent (snd (connectWithCredentials P outcome a s))"
proof -
  obtain r k1 where c: "connect P outcome s = (r, k1)" by (cases "connect P outcome s")
  have k1: "consistent k1" using consistent_connect [OF assms, of P outcome] c by simp
  show ?thesis
  proof (cases r)
    case (Inl err)
    have "consistent (logger Error ''Failed to connect with credentials:'' k1)"
      by (rule consistent_frame [OF k1]) (simp_all add: logger_def)
    with c Inl show ?thesis by (simp add: connectWithCredentials_def)
  next
    case (Inr u)
    obtain r2 k2 where a2: "authenticate P a (k1\<lparr>credentials := Some a\<rparr>) = (r2, k2)"
      by (cases "authenticate P a (k1\<lparr>credentials := Some a\<rparr>)")
    from send_shape [OF a2 [unfolded authenticate_def]]
    have k2: "authState k2 = authState k1" "ws k2 = ws k1" "promises k2 = promises k1"
      "microtasks k2 = microtasks k1" by simp_all
    show ?thesis
    proof (cases r2)
      case (Inl err)
      have "consistent (logger Error ''Failed to connect with credentials:'' k2)"
        by (rule consistent_frame [OF k1]) (simp_all add: logger_def k2)
      with c Inr a2 Inl show ?thesis by (simp add: connectWithCredentials_def Let_def)
    next
      case (Inr v)
      have "consistent (emit EvOpen (k2\<lparr>authState := Connected\<rparr>))"
        by (intro consistentI [OF k1]) (simp_all add: emit_def k2)
      with c \<open>r = Inr u\<close> a2 Inr show ?thesis by (simp add: connectWithCredentials_def Let_def)
    qed
  qed
qed

lemma settle_shape:
  "authState (settle p v s) = authState s \<and> ws (settle p v s) = ws s
   \<and> length (promises (settle p v s)) = length (promises s)
   \<and> microtasks (settle p v s) = microtasks s"
  by simp

lemma consistent_settle: "consistent s \<Longrightarrow> consistent (settle p v s)"
  by (simp add: consistent_def)

lemma consistent_requestCode:
  assumes "consistent s"
  shows "consistent (snd (requestQRCode P keys u s))"
    and "consistent (snd (requestPairingCode P keys u s))"
  using assms consistent_sendRequest [OF assms]
  by (auto simp: requestQRCode_def requestPairingCode_def case_prod_beta logger_def
        consistent_def split: sum.splits)

lemma consistent_setup:
  assumes "consistent s" and "authState s \<noteq> Disconnected"
  shows "consistent (setupAuthenticationPromise s)"
  by (rule consistentI [OF assms(1)])
     (use assms in \<open>simp_all add: setupAuthenticationPromise_def newPromise_def consistent_def\<close>)

lemma resume_shape:
  "authState (snd (requestQRCode_resume keypair (Inr response) s)) = Authenticating
   \<and> promises (snd (requestQRCode_resume keypair (Inr response) s)) = promises s @ [Pending]
   \<and> microtasks (snd (requestQRCode_resume keypair (Inr response) s)) = microtasks s
   \<and> authState (snd (requestPairingCode_resume keypair (Inr response) s)) = Authenticating
   \<and> promises (snd (requestPairingCode_resume keypair (Inr response) s)) = promises s @ [Pending]
   \<and> microtasks (snd (requestPairingCode_resume keypair (Inr response) s)) = microtasks s"
  by (simp add: requestQRCode_resume_def requestPairingCode_resume_def newObject_def
        setupAuthenticationPromise_def newPromise_def Let_def)

lemma consistent_resume:
  assumes "consistent s"
  shows "consistent (snd (requestQRCode_resume keypair result s))"
    and "consistent (snd (requestPairingCode_resume keypair result s))"
proof -
  show "consistent (snd (requestQRCode_resume keypair result s))"
  proof (cases result)
    case (Inl err)
    with assms show ?thesis
      by (simp add: requestQRCode_resume_def logger_def consistent_def)
  next
    case (Inr response)
    show ?thesis unfolding Inr
      by (rule consistentI [OF assms]) (simp_all add: resume_shape)
  qed
  show "consistent (snd (requestPairingCode_resume keypair result s))"
  proof (cases result)
    case (Inl err)
    with assms show ?thesis
      by (simp add: requestPairingCode_resume_def logger_def consistent_def)
  next
    case (Inr response)
    show ?thesis unfolding Inr
      by (rule consistentI [OF assms]) (simp_all add: resume_shape)
  qed
qed

lemma consistent_waitForAuthentication:
  assumes "consistent s"
  shows "consistent (snd (waitForAuthentication s))"
proof (cases "authState s = Authenticating \<and> authPromise s = None")
  case True
  then have "snd (waitForAuthentication s) = setupAuthenticationPromise s"
    by (simp add: waitForAuthentication_def Let_def)
  moreover have "consistent (setupAuthenticationPromise s)"
    using True by (intro consistent_setup [OF assms]) simp
  ultimately show ?thesis by simp
next
  case False
  with assms show ?thesis
    by (auto simp: waitForAuthentication_def Let_def)
qed

lemma runMicrotask_shape:
  "authState (runMicrotask t s) = authState s \<and> ws (runMicrotask t s) = ws s
   \<and> length (promises (runMicrotask t s)) = length (promises s)
   \<and> microtasks (runMicrotask t s) = microtasks s"
  by (cases t) (simp_all add: clearTimeout_def logger_def Let_def)

lemma fold_runMicrotask_shape:
  "authState (fold runMicrotask ts s) = authState s \<and> ws (fold runMicrotask ts s) = ws s
   \<and> length (promises (fold runMicrotask ts s)) = length (promises s)
   \<and> microtasks (fold runMicrotask ts s) = microtasks s"
  by (induction ts arbitrary: s) (simp_all add: runMicrotask_shape)

lemma consistent_runMicrotasks:
  assumes "consistent s"
  shows "consistent (runMicrotasks s)"
  using fold_runMicrotask_shape [of "microtasks s" "s\<lparr>microtasks := []\<rparr>"]
  by (intro consistentI [OF assms]) (use assms in \<open>simp_all add: runMicrotasks_def consistent_def\<close>)

lemma consistent_timeoutFires:
  assumes "consistent s"
  shows "consistent (timeoutFires i s)"
  by (rule consistentI [OF assms])
     (use assms in \<open>auto simp: timeoutFires_def clearTimeout_def Let_def consistent_def
        split: option.splits\<close>)

lemma consistent_keepAliveTick:
  assumes "consistent s"
  shows "consistent (keepAliveTick P s)"
proof (cases "keepAliveInterval s \<and> ws s = Some OPEN")
  case False
  with assms show ?thesis by (auto simp: keepAliveTick_def)
next
  case True
  obtain r k where sd: "send P PingMsg s = (r, k)" by (cases "send P PingMsg s")
  from send_shape [OF sd] have k: "authState k = authState s" "ws k = ws s"
    "promises k = promises s" "microtasks k = microtasks s" by simp_all
  show ?thesis
  proof (cases r)
    case (Inl err)
    have "consistent (k\<lparr>microtasks := microtasks k @ [PingCatch err]\<rparr>)"
      by (rule consistentI [OF assms]) (use assms in \<open>simp_all add: k consistent_def\<close>)
    with True sd Inl show ?thesis by (simp add: keepAliveTick_def)
  next
    case (Inr u)
    have "consistent k"
      by (rule consistent_frame [OF assms]) (simp_all add: k)
    with True sd Inr show ?thesis by (simp add: keepAliveTick_def)
  qed
qed

lemma consistent_handleAuthSuccess:
  assumes "consistent s"
  shows "consistent (handleAuthSuccess m s)"
proof (cases "credentials s")
  case None
  with assms show ?thesis by (simp add: handleAuthSuccess_def logger_def consistent_def)
next
  case (Some a)
  have f: "authState (handleAuthSuccess m s) = Connected
      \<and> length (promises (handleAuthSuccess m s)) = length (promises s)
      \<and> microtasks (handleAuthSuccess m s) = microtasks s"
    using Some
    by (simp add: handleAuthSuccess_def newObject_def emit_def Let_def split: option.splits)
  show ?thesis
    by (rule consistentI [OF assms]) (simp_all add: f)
qed

lemma cb_shape:
  "authState (cb_resolve cb m s) = authState s \<and> ws (cb_resolve cb m s) = ws s
   \<and> length (promises (cb_resolve cb m s)) = length (promises s)
   \<and> microtasks (cb_resolve cb m s) = microtasks s
   \<and> authState (cb_reject cb err s) = authState s \<and> ws (cb_reject cb err s) = ws s
   \<and> length (promises (cb_reject cb err s)) = length (promises s)
   \<and> microtasks (cb_reject cb err s) = microtasks s"
  by (simp add: cb_resolve_def cb_reject_def clearTimeout_def Let_def)

lemma consistent_handleIncomingMessage:
  assumes "consistent s"
  shows "consistent (handleIncomingMessage P m s)"
proof (cases "pendingFor m s")
  case (Some cb)
  show ?thesis
    by (rule consistentI [OF assms])
       (use assms Some in \<open>simp_all add: handleIncomingMessage_def cb_shape consistent_def\<close>)
next
  case None
  show ?thesis
  proof (cases "env_type m = Some ''auth_success''")
    case True
    with None show ?thesis
      by (simp add: handleIncomingMessage_def consistent_handleAuthSuccess [OF assms])
  next
    case False
    with None assms show ?thesis
      by (simp add: handleIncomingMessage_def consistent_def emit_def logger_def)
  qed
qed

lemma consistent_ws_on_close:
  assumes "consistent s"
  shows "consistent (ws_on_close code reason s)"
  by (rule consistentI [OF assms])
     (simp_all add: ws_on_close_def handleConnectionClose_def emit_def logger_def Let_def
        split: option.splits)

lemma reachable_consistent:
  assumes "reachable P s"
  shows "consistent s"
  using assms
proof (induction rule: reachable.induct)
  case (r_new opts)
  show ?case by (simp add: consistent_def newConnection_def)
next
  case (r_ws_on_message s d)
  then show ?case
    by (cases "decode P d (case credentials s of None \<Rightarrow> None
                                | Some a \<Rightarrow> Some (privateKey (heap s a)))")
       (simp_all add: ws_on_message_def consistent_handleIncomingMessage,
        simp add: consistent_def logger_def)
next
  case (r_ws_on_error s msg)
  then show ?case by (simp add: consistent_def ws_on_error_def emit_def logger_def)
next
  case (r_newObject s c)
  then show ?case by (simp add: consistent_def newObject_def)
next
  case (r_mutateObject s a f)
  then show ?case by (simp add: consistent_def mutateObject_def)
qed (simp_all add: consistent_connect consistent_connectWithCredentials consistent_disconnect
      consistent_requestCode consistent_resume consistent_waitForAuthentication consistent_send
      consistent_sendRequest consistent_runMicrotasks consistent_timeoutFires
      consistent_keepAliveTick consistent_handleIncomingMessage consistent_ws_on_close)


subsection \<open>The request fails\<close>

lemma runMicrotask_keeps:
  "queuedWithin p t \<Longrightarrow>
   promises (runMicrotask t s) ! p = promises s ! p
   \<and> length (promises (runMicrotask t s)) = length (promises s)
   \<and> sent (runMicrotask t s) = sent s"
  by (cases t) (simp_all add: queuedWithin_def settle_other clearTimeout_def logger_def Let_def)

lemma fold_runMicrotask_keeps:
  "list_all (queuedWithin p) ts \<Longrightarrow>
   promises (fold runMicrotask ts s) ! p = promises s ! p
   \<and> length (promises (fold runMicrotask ts s)) = length (promises s)
   \<and> sent (fold runMicrotask ts s) = sent s"
proof (induction ts arbitrary: s)
  case Nil
  then show ?case by simp
next
  case (Cons t ts)
  then show ?case using runMicrotask_keeps [of p t s] by simp
qed

lemma sendRequest_not_open:
  assumes "ws s \<noteq> Some OPEN"
  shows "sendRequest P request timeout u s =
     (length (promises s),
      s\<lparr>promises := promises s @ [Pending],
        timers := timers s @ [Some \<lparr>t_tag = assignTag request u,
                    t_promise = length (promises s), t_timeout = timeout\<rparr>],
        msgRetryCache := (msgRetryCache s)(assignTag request u \<mapsto>
           \<lparr>cb_tag = assignTag request u, cb_timer = length (timers s),
            cb_promise = length (promises s)\<rparr>),
        microtasks := microtasks s @ [SendRequestCatch (assignTag request u)
           (length (timers s)) (length (promises s)) WebSocketNotOpen]\<rparr>)"
  using assms by (simp add: sendRequest_def send_def newPromise_def setTimeout_def Let_def)

text \<open>
  C5. In every reachable state whose connection state is \<open>disconnected\<close>, no socket is
  open, and a \<^verbatim>\<open>sendRequest\<close> issued there returns a promise that is rejected as soon as
  the promise reactions run, with the error \<^verbatim>\<open>WebSocket connection is not open\<close> (the
  code has one \<^verbatim>\<open>Error\<close> class; this is its error for a call in a state that does not
  allow it). Nothing is handed to the socket, neither by the call nor by the reactions,
  and no entry for the request is left in the registry.
\<close>

theorem sendRequest_while_disconnected:
  assumes "reachable P s" and "authState s = Disconnected"
  shows "ws s \<noteq> Some OPEN
    \<and> fst (sendRequest P request timeout u s) = length (promises s)
    \<and> promises (runMicrotasks (snd (sendRequest P request timeout u s))) ! length (promises s)
         = Rejected WebSocketNotOpen
    \<and> sent (snd (sendRequest P request timeout u s)) = sent s
    \<and> sent (runMicrotasks (snd (sendRequest P request timeout u s))) = sent s
    \<and> msgRetryCache (runMicrotasks (snd (sendRequest P request timeout u s)))
         (assignTag request u) = None"
proof -
  from reachable_consistent [OF assms(1)] assms(2)
  have w: "ws s \<noteq> Some OPEN"
    and q: "list_all (queuedWithin (length (promises s))) (microtasks s)"
    by (simp_all add: consistent_def)
  let ?p = "length (promises s)"
  let ?tag = "assignTag request u"
  let ?s1 = "snd (sendRequest P request timeout u s)"
  let ?mid = "fold runMicrotask (microtasks s) (?s1\<lparr>microtasks := []\<rparr>)"
  have run: "runMicrotasks ?s1
      = runMicrotask (SendRequestCatch ?tag (length (timers s)) ?p WebSocketNotOpen) ?mid"
    using w by (simp add: sendRequest_not_open runMicrotasks_def)
  have mid: "promises ?mid ! ?p = Pending \<and> length (promises ?mid) = Suc ?p \<and> sent ?mid = sent s"
    using fold_runMicrotask_keeps [OF q, of "?s1\<lparr>microtasks := []\<rparr>"] w
    by (simp add: sendRequest_not_open)
  show ?thesis
    using w mid unfolding run
    by (simp add: sendRequest_not_open settle_pending clearTimeout_def Let_def)
qed

theorem sendRequest_while_disconnected_witness:
  "reachable examplePlatform (disconnect oneRequestPending)
   \<and> authState (disconnect oneRequestPending) = Disconnected
   \<and> ws (disconnect oneRequestPending) = None
   \<and> fst (sendRequest examplePlatform exampleRequest 30000 half
            (disconnect oneRequestPending)) = 1
   \<and> promises (runMicrotasks (snd (sendRequest examplePlatform exampleRequest 30000 half
         (disconnect oneRequestPending)))) ! 1 = Rejected WebSocketNotOpen
   \<and> sent (runMicrotasks (snd (sendRequest examplePlatform exampleRequest 30000 half
         (disconnect oneRequestPending)))) = sent oneRequestPending
   \<and> msgRetryCache (runMicrotasks (snd (sendRequest examplePlatform exampleRequest 30000 half
         (disconnect oneRequestPending)))) ''500000'' = None"
proof -
  have r: "reachable examplePlatform (disconnect oneRequestPending)"
    unfolding oneRequestPending_def openedConnection_def
    by (intro r_disconnect r_sendRequest r_connect r_new)
  have a: "authState (disconnect oneRequestPending) = Disconnected"
    and w: "ws (disconnect oneRequestPending) = None"
    and p: "promises (disconnect oneRequestPending) = [Pending]"
    and st: "sent (disconnect oneRequestPending) = sent oneRequestPending"
    by (simp_all add: disconnect_def logger_def oneRequestPending_fields Let_def)
  have t: "assignTag exampleRequest half = ''500000''"
    by (simp add: example_defs op_defs double_defs)
  show ?thesis
    using sendRequest_while_disconnected [OF r a, of exampleRequest 30000 half] r a w p st t
    by simp
qed

section \<open>Disconnecting while authenticating\<close>

text \<open>
  When the socket closes while the connection is authenticating, the listener rejects
  the authentication promise and the state becomes \<open>disconnected\<close>.
\<close>

lemma close_rejects_authentication:
  assumes "authState s = Authenticating" and "authReject s = Some p"
    and "p < length (promises s)" and "promises s ! p = Pending"
  shows "promises (ws_on_close code reason s) ! p
           = Rejected (ClosedDuringAuthentication code reason)
       \<and> authState (ws_on_close code reason s) = Disconnected"
  using assms
  by (simp add: ws_on_close_def handleConnectionClose_def logger_def emit_def settle_def Let_def)

lemma disconnect_keeps_promises:
  "promises (disconnect s) = promises s \<and> authReject (disconnect s) = authReject s
   \<and> authState (disconnect s) = Disconnected"
  by (simp add: disconnect_def logger_def Let_def)

text \<open>
  C3 on the code. After \<^verbatim>\<open>requestQRCode\<close> has stored the partial credentials and armed
  the authentication promise, and \<^verbatim>\<open>waitForAuthentication\<close> has returned that promise
  (promise 1), the caller's \<^verbatim>\<open>disconnect()\<close> sets the state to \<open>disconnected\<close> and leaves
  the promise pending, where the close of the socket rejects it.
\<close>

theorem disconnect_while_authenticating:
  "authState awaitingScan = Authenticating
   \<and> fst (waitForAuthentication awaitingScan) = Inr (Some 1)
   \<and> promises awaitingScan ! 1 = Pending
   \<and> authState (disconnect awaitingScan) = Disconnected
   \<and> promises (disconnect awaitingScan) ! 1 = Pending
   \<and> promises (ws_on_close 1006 ''abnormal'' awaitingScan) ! 1
        = Rejected (ClosedDuringAuthentication 1006 ''abnormal'')"
  by (simp add: awaitingScan_fields disconnect_def ws_on_close_def handleConnectionClose_def
        logger_def emit_def settle_def Let_def)

section \<open>Reading the credentials\<close>




section \<open>Dispatching inbound messages\<close>

lemma pendingFor_answers: "pendingFor m s = None \<longleftrightarrow> \<not> answersPending m s"
  by (auto simp: pendingFor_def answersPending_def truthy_def split: option.splits)

lemma handleIncomingMessage_answer:
  assumes "env_tag m = Some t" and "t \<noteq> []" and "msgRetryCache s t = Some cb"
  shows "handleIncomingMessage P m s =
           (case env_error m of
              None \<Rightarrow> cb_resolve cb m s
            | Some e \<Rightarrow> if e = [] then cb_resolve cb m s else cb_reject cb (ServerError e) s)"
  using assms
  by (simp add: handleIncomingMessage_def pendingFor_def truthy_def split: option.splits)

lemma cb_settles:
  assumes "cb_promise cb < length (promises s)" and "promises s ! cb_promise cb = Pending"
  shows "promises (cb_resolve cb m s) ! cb_promise cb = Fulfilled (Some m)"
    and "promises (cb_reject cb err s) ! cb_promise cb = Rejected err"
  using assms by (simp_all add: cb_resolve_def cb_reject_def clearTimeout_def settle_def Let_def)

lemma cb_frame:
  "emitted (cb_resolve cb m s) = emitted s" "emitted (cb_reject cb err s) = emitted s"
  "authState (cb_resolve cb m s) = authState s" "authState (cb_reject cb err s) = authState s"
  "credentials (cb_resolve cb m s) = credentials s"
  "credentials (cb_reject cb err s) = credentials s"
  by (simp_all add: cb_resolve_def cb_reject_def clearTimeout_def Let_def)

lemma handleIncomingMessage_push:
  assumes "\<not> answersPending m s"
  shows "handleIncomingMessage P m s
          = (case kindOf (env_type m) of
               AuthSuccess \<Rightarrow> handleAuthSuccess m s
             | InboundMessage \<Rightarrow> emit (EvMessage (parseMessageNode P (env_data m))) s
             | MessageCreated \<Rightarrow> emit (EvMessageCreate (env_data m)) s
             | MessageRevoked \<Rightarrow> emit (EvMessageRevoke (env_data m)) s
             | PresenceUpdated \<Rightarrow> emit (EvPresenceUpdate (env_data m)) s
             | GroupUpdated \<Rightarrow> emit (EvGroupUpdate (env_data m)) s
             | UnknownKind \<Rightarrow>
                 s\<lparr>logged := logged s @ [(Debug, ''Received unknown message type:'')]\<rparr>)"
proof -
  from assms have "pendingFor m s = None"
    by (simp add: pendingFor_answers)
  then show ?thesis
    by (simp add: handleIncomingMessage_def kindOf_def logger_def)
qed

text \<open>
  C7, as the specification states it, fails where the message has an error field that
  is the empty string: the condition \<^verbatim>\<open>if (message.error)\<close> is false for it, and the
  pending request is resolved, not rejected.
\<close>

theorem empty_error_resolves_counterexample:
  "msgRetryCache oneRequestPending ''500000''
     = Some \<lparr>cb_tag = ''500000'', cb_timer = 0, cb_promise = 0\<rparr>
   \<and> promises oneRequestPending ! 0 = Pending
   \<and> env_tag emptyErrorResponse = Some ''500000''
   \<and> env_error emptyErrorResponse = Some []
   \<and> promises (handleIncomingMessage examplePlatform emptyErrorResponse oneRequestPending) ! 0
        = Fulfilled (Some emptyErrorResponse)"
  by (simp add: oneRequestPending_fields handleIncomingMessage_def pendingFor_def truthy_def
        cb_resolve_def clearTimeout_def settle_def emptyErrorResponse_def Let_def)

text \<open>
  C7, amended. When the tag of the message is a non-empty string under which a pending
  request is registered, the promise of that request is rejected with the error the server
  reported if the error field is a non-empty string, and fulfilled with the message if
  the field is absent or empty; no event is emitted, and the state of the connection and
  its credentials stay as they are. Any other message is classified by its type: the
  authentication success goes to \<^verbatim>\<open>handleAuthSuccess\<close>, the five push events are
  emitted, and a message of any other type is passed to the logger at debug level and
  changes nothing else.
\<close>

theorem handleIncomingMessage_dispatch:
  "(env_tag m = Some t \<and> t \<noteq> [] \<and> msgRetryCache s t = Some cb
      \<and> cb_promise cb < length (promises s) \<and> promises s ! cb_promise cb = Pending
    \<longrightarrow> promises (handleIncomingMessage P m s) ! cb_promise cb
          = (case env_error m of
               None \<Rightarrow> Fulfilled (Some m)
             | Some e \<Rightarrow> if e = [] then Fulfilled (Some m) else Rejected (ServerError e))
        \<and> emitted (handleIncomingMessage P m s) = emitted s
        \<and> authState (handleIncomingMessage P m s) = authState s
        \<and> credentials (handleIncomingMessage P m s) = credentials s)
   \<and> (\<not> answersPending m s
    \<longrightarrow> handleIncomingMessage P m s
          = (case kindOf (env_type m) of
               AuthSuccess \<Rightarrow> handleAuthSuccess m s
             | InboundMessage \<Rightarrow> emit (EvMessage (parseMessageNode P (env_data m))) s
             | MessageCreated \<Rightarrow> emit (EvMessageCreate (env_data m)) s
             | MessageRevoked \<Rightarrow> emit (EvMessageRevoke (env_data m)) s
             | PresenceUpdated \<Rightarrow> emit (EvPresenceUpdate (env_data m)) s
             | GroupUpdated \<Rightarrow> emit (EvGroupUpdate (env_data m)) s
             | UnknownKind \<Rightarrow>
                 s\<lparr>logged := logged s @ [(Debug, ''Received unknown message type:'')]\<rparr>))"
proof (intro conjI impI)
  assume h: "env_tag m = Some t \<and> t \<noteq> [] \<and> msgRetryCache s t = Some cb
      \<and> cb_promise cb < length (promises s) \<and> promises s ! cb_promise cb = Pending"
  then have eq: "handleIncomingMessage P m s =
           (case env_error m of
              None \<Rightarrow> cb_resolve cb m s
            | Some e \<Rightarrow> if e = [] then cb_resolve cb m s else cb_reject cb (ServerError e) s)"
    by (simp add: handleIncomingMessage_answer)
  from h show "promises (handleIncomingMessage P m s) ! cb_promise cb
          = (case env_error m of
               None \<Rightarrow> Fulfilled (Some m)
             | Some e \<Rightarrow> if e = [] then Fulfilled (Some m) else Rejected (ServerError e))"
    unfolding eq by (simp add: cb_settles split: option.splits)
  show "emitted (handleIncomingMessage P m s) = emitted s"
    unfolding eq by (simp add: cb_frame split: option.splits)
  show "authState (handleIncomingMessage P m s) = authState s"
    unfolding eq by (simp add: cb_frame split: option.splits)
  show "credentials (handleIncomingMessage P m s) = credentials s"
    unfolding eq by (simp add: cb_frame split: option.splits)
next
  assume "\<not> answersPending m s"
  then show "handleIncomingMessage P m s
          = (case kindOf (env_type m) of
               AuthSuccess \<Rightarrow> handleAuthSuccess m s
             | InboundMessage \<Rightarrow> emit (EvMessage (parseMessageNode P (env_data m))) s
             | MessageCreated \<Rightarrow> emit (EvMessageCreate (env_data m)) s
             | MessageRevoked \<Rightarrow> emit (EvMessageRevoke (env_data m)) s
             | PresenceUpdated \<Rightarrow> emit (EvPresenceUpdate (env_data m)) s
             | GroupUpdated \<Rightarrow> emit (EvGroupUpdate (env_data m)) s
             | UnknownKind \<Rightarrow>
                 s\<lparr>logged := logged s @ [(Debug, ''Received unknown message type:'')]\<rparr>)"
    by (rule handleIncomingMessage_push)
qed

theorem handleIncomingMessage_dispatch_witness:
  "env_tag errorResponse = Some ''500000''
   \<and> msgRetryCache oneRequestPending ''500000''
        = Some \<lparr>cb_tag = ''500000'', cb_timer = 0, cb_promise = 0\<rparr>
   \<and> promises oneRequestPending ! 0 = Pending
   \<and> promises (handleIncomingMessage examplePlatform errorResponse oneRequestPending) ! 0
        = Rejected (ServerError ''not-authorized'')
   \<and> emitted (handleIncomingMessage examplePlatform errorResponse oneRequestPending)
        = emitted oneRequestPending
   \<and> \<not> answersPending unknownPush oneRequestPending
   \<and> handleIncomingMessage examplePlatform unknownPush oneRequestPending
        = oneRequestPending\<lparr>logged := logged oneRequestPending
            @ [(Debug, ''Received unknown message type:'')]\<rparr>"
proof -
  have a: "env_tag errorResponse = Some ''500000''"
    "env_error errorResponse = Some ''not-authorized''"
    by (simp_all add: errorResponse_def)
  have b: "\<not> answersPending unknownPush oneRequestPending"
    "kindOf (env_type unknownPush) = UnknownKind"
    by (simp_all add: answersPending_def unknownPush_def kindOf_def)
  show ?thesis
    using handleIncomingMessage_dispatch [of errorResponse "''500000''" oneRequestPending
        "\<lparr>cb_tag = ''500000'', cb_timer = 0, cb_promise = 0\<rparr>" examplePlatform]
      handleIncomingMessage_dispatch [of unknownPush "[]" oneRequestPending
        "\<lparr>cb_tag = ''500000'', cb_timer = 0, cb_promise = 0\<rparr>" examplePlatform]
      a b
    by (simp add: oneRequestPending_fields)
qed

section \<open>Connected only with credentials\<close>

lemma send_frame:
  "authState (snd (send P m s)) = authState s" "credentials (snd (send P m s)) = credentials s"
  by (simp_all add: send_def logger_def split: option.splits sum.splits)

lemma sendRequest_frame:
  "authState (snd (sendRequest P r t u s)) = authState s"
  "credentials (snd (sendRequest P r t u s)) = credentials s"
  by (simp_all add: sendRequest_def newPromise_def setTimeout_def Let_def send_def logger_def
      split: prod.splits sum.splits option.splits)

lemma disconnect_state: "authState (disconnect s) = Disconnected"
  by (simp add: disconnect_def logger_def Let_def)

lemma connect_not_connected:
  "authState s \<noteq> Connected \<or> credentials s \<noteq> None \<Longrightarrow>
   authState (snd (connect P outcome s)) \<noteq> Connected
   \<or> credentials (snd (connect P outcome s)) \<noteq> None"
  by (auto simp: connect_def disconnect_state initializeConnection_def Let_def ws_on_open_def
        ws_on_error_def ws_on_close_def handleConnectionClose_def logger_def emit_def
        startKeepAlive_def send_def
      split: openOutcome.splits prod.splits sum.splits option.splits if_splits)

lemma credentialed_connect: "credentialed s \<Longrightarrow> credentialed (snd (connect P outcome s))"
  using connect_not_connected [of s P outcome] by (auto simp: credentialed_def)

lemma credentialed_connectWithCredentials:
  assumes "credentialed s"
  shows "credentialed (snd (connectWithCredentials P outcome creds s))"
proof -
  obtain r k where ck: "connect P outcome s = (r, k)" by (cases "connect P outcome s")
  have k: "credentialed k" using credentialed_connect [OF assms, of P outcome] ck by simp
  show ?thesis
    using k
    by (auto simp: connectWithCredentials_def ck credentialed_def authenticate_def send_def
          logger_def emit_def Let_def split: sum.splits option.splits)
qed

lemma fold_runMicrotask_frame:
  "authState (fold runMicrotask ts s) = authState s
   \<and> credentials (fold runMicrotask ts s) = credentials s"
proof (induction ts arbitrary: s)
  case Nil
  then show ?case by simp
next
  case (Cons t ts)
  have "authState (runMicrotask t s) = authState s
        \<and> credentials (runMicrotask t s) = credentials s"
    by (cases t) (simp_all add: clearTimeout_def logger_def Let_def)
  with Cons show ?case by simp
qed

lemma credentialed_handleAuthSuccess:
  "credentialed s \<Longrightarrow> credentialed (handleAuthSuccess m s)"
  by (auto simp: credentialed_def handleAuthSuccess_def logger_def emit_def newObject_def Let_def
      split: option.splits)

lemma credentialed_handleIncomingMessage:
  assumes "credentialed s"
  shows "credentialed (handleIncomingMessage P m s)"
proof (cases "pendingFor m s")
  case None
  show ?thesis
  proof (cases "env_type m = Some ''auth_success''")
    case True
    with None assms show ?thesis
      by (simp add: handleIncomingMessage_def credentialed_handleAuthSuccess)
  next
    case False
    with None assms show ?thesis
      by (simp add: handleIncomingMessage_def credentialed_def emit_def logger_def)
  qed
next
  case (Some cb)
  with assms show ?thesis
    by (simp add: handleIncomingMessage_def credentialed_def cb_resolve_def cb_reject_def
          clearTimeout_def Let_def)
qed

lemma requestCode_frame:
  "authState (snd (requestQRCode P keys u s)) = authState s"
  "credentials (snd (requestQRCode P keys u s)) = credentials s"
  "authState (snd (requestPairingCode P keys u s)) = authState s"
  "credentials (snd (requestPairingCode P keys u s)) = credentials s"
  by (simp_all add: requestQRCode_def requestPairingCode_def sendRequest_frame logger_def
        case_prod_beta split: sum.splits)

lemma reachable_credentialed:
  assumes "reachable P s"
  shows "credentialed s"
  using assms
proof (induction rule: reachable.induct)
  case (r_new opts)
  then show ?case by (simp add: credentialed_def newConnection_def)
next
  case (r_connect s outcome)
  then show ?case by (simp add: credentialed_connect)
next
  case (r_connectWithCredentials s outcome creds)
  then show ?case by (simp add: credentialed_connectWithCredentials)
next
  case (r_disconnect s)
  then show ?case by (simp add: credentialed_def disconnect_state)
next
  case (r_requestQRCode s keys u)
  then show ?case by (simp add: credentialed_def requestCode_frame)
next
  case (r_requestQRCode_resume s keypair result)
  then show ?case
    by (auto simp: credentialed_def requestQRCode_resume_def logger_def newObject_def
          setupAuthenticationPromise_def newPromise_def Let_def split: sum.splits)
next
  case (r_requestPairingCode s keys u)
  then show ?case by (simp add: credentialed_def requestCode_frame)
next
  case (r_requestPairingCode_resume s keypair result)
  then show ?case
    by (auto simp: credentialed_def requestPairingCode_resume_def logger_def newObject_def
          setupAuthenticationPromise_def newPromise_def Let_def split: sum.splits)
next
  case (r_waitForAuthentication s)
  then show ?case
    by (auto simp: credentialed_def waitForAuthentication_def setupAuthenticationPromise_def
          newPromise_def Let_def)
next
  case (r_send s message)
  then show ?case by (simp add: credentialed_def send_frame)
next
  case (r_sendRequest s request timeout u)
  then show ?case by (simp add: credentialed_def sendRequest_frame)
next
  case (r_runMicrotasks s)
  then show ?case
    using fold_runMicrotask_frame [of "microtasks s" "s\<lparr>microtasks := []\<rparr>"]
    by (simp add: credentialed_def runMicrotasks_def)
next
  case (r_timeoutFires s i)
  then show ?case
    by (auto simp: credentialed_def timeoutFires_def clearTimeout_def Let_def split: option.splits)
next
  case (r_keepAliveTick s)
  then show ?case
    by (auto simp: credentialed_def keepAliveTick_def send_def logger_def
        split: prod.splits sum.splits option.splits)
next
  case (r_ws_on_message s d)
  then show ?case
    by (cases "decode P d (case credentials s of None \<Rightarrow> None
                                | Some a \<Rightarrow> Some (privateKey (heap s a)))")
       (simp_all add: ws_on_message_def credentialed_handleIncomingMessage,
        simp add: credentialed_def logger_def)
next
  case (r_handleIncomingMessage s message)
  then show ?case by (simp add: credentialed_handleIncomingMessage)
next
  case (r_ws_on_close s code reason)
  then show ?case
    by (auto simp: credentialed_def ws_on_close_def handleConnectionClose_def emit_def logger_def
          Let_def split: option.splits)
next
  case (r_ws_on_error s msg)
  then show ?case by (simp add: credentialed_def ws_on_error_def emit_def logger_def)
next
  case (r_newObject s c)
  then show ?case by (simp add: credentialed_def newObject_def)
next
  case (r_mutateObject s a f)
  then show ?case by (simp add: credentialed_def mutateObject_def)
qed

text \<open>
  C2. In every state the connection can reach, the state is \<open>connected\<close> only if a
  credentials object is stored; and the two operations that set the state to
  \<open>connected\<close>, \<^verbatim>\<open>handleAuthSuccess\<close> and \<^verbatim>\<open>connectWithCredentials\<close>, keep it so from any
  state where it holds. (A credentials object has its two keys at least, so one that is
  stored is not empty.)
\<close>

theorem connected_has_credentials:
  "(reachable P s \<longrightarrow> authState s = Connected \<longrightarrow> credentials s \<noteq> None)
   \<and> (credentialed s0 \<longrightarrow> credentialed (handleAuthSuccess m s0))
   \<and> (credentialed s0 \<longrightarrow> credentialed (snd (connectWithCredentials P outcome creds s0)))"
  using reachable_credentialed [of P s]
  by (simp add: credentialed_handleAuthSuccess credentialed_connectWithCredentials)
     (simp add: credentialed_def)

theorem connected_has_credentials_witness:
  "reachable examplePlatform resumedConnection
   \<and> authState resumedConnection = Connected
   \<and> credentials resumedConnection = Some 0
   \<and> credentialed (newConnection exampleOptions)
   \<and> credentialed (handleAuthSuccess qrResponse (newConnection exampleOptions))
   \<and> credentialed resumedConnection"
proof -
  have r: "reachable examplePlatform resumedConnection"
    unfolding resumedConnection_def
    by (intro r_connectWithCredentials r_newObject r_new)
  have n: "credentialed (newConnection exampleOptions)"
    by (simp add: credentialed_def newConnection_def)
  have "credentialed (snd (newObject exampleCredentials (newConnection exampleOptions)))"
    by (simp add: credentialed_def newConnection_def newObject_def)
  then show ?thesis
    using connected_has_credentials [of examplePlatform resumedConnection
        "newConnection exampleOptions" qrResponse Opens 0]
      connected_has_credentials [of examplePlatform resumedConnection
        "snd (newObject exampleCredentials (newConnection exampleOptions))" qrResponse Opens 0]
      r n
    by (simp add: resumedConnection_fields resumedConnection_def [symmetric])
qed

section \<open>Message tags\<close>

subsection \<open>The number in a generated tag\<close>

text \<open>
  \<open>Math_floor\<close> is the floor of the value, and the number in a tag that is generated
  from a draw of \<^verbatim>\<open>Math.random()\<close> is one of the million from 0 to 999999.
\<close>

lemma floor_exact: "\<lfloor>valueOf d\<rfloor> = Math_floor d"
proof (cases "0 \<le> exponent d")
  case True
  have "valueOf d = of_int (int (significand d) * 2 ^ nat (exponent d))"
    using True by (simp add: valueOf_def)
  then show ?thesis using True by (simp add: Math_floor_def del: of_int_mult of_int_power)
next
  case False
  have "\<lfloor>real (significand d) / 2 ^ nat (- exponent d)\<rfloor>
        = int (significand d) div 2 ^ nat (- exponent d)"
    using floor_divide_of_int_eq [of "int (significand d)" "2 ^ nat (- exponent d)", where ?'a = real]
    by simp
  then show ?thesis using False by (simp add: valueOf_def Math_floor_def)
qed

lemma bitLength_bound: "n < 2 ^ k \<Longrightarrow> bitLength n \<le> k"
proof (induction n arbitrary: k rule: bitLength.induct)
  case (1 n)
  show ?case
  proof (cases "n = 0")
    case True
    then show ?thesis by (subst bitLength.simps) simp
  next
    case False
    with "1.prems" obtain j where k: "k = Suc j" by (cases k) auto
    with "1.prems" have "n div 2 < 2 ^ j" by auto
    from "1.IH" [OF False this] show ?thesis
      using False k by (subst bitLength.simps) simp
  qed
qed

lemma bitLength_covers: "n < 2 ^ bitLength n"
proof (induction n rule: bitLength.induct)
  case (1 n)
  show ?case
  proof (cases "n = 0")
    case True
    then show ?thesis by (subst bitLength.simps) simp
  next
    case False
    from "1.IH" [OF False] have "n div 2 < 2 ^ bitLength (n div 2)" .
    then have "n < 2 * 2 ^ bitLength (n div 2)" by linarith
    then show ?thesis using False by (subst bitLength.simps) simp
  qed
qed


lemma rounded_within_half:
  fixes m d :: nat
  assumes "0 < d"
  shows "(if 2 ^ (d - 1) < m mod 2 ^ d \<or> (m mod 2 ^ d = 2 ^ (d - 1) \<and> odd (m div 2 ^ d))
          then m div 2 ^ d + 1 else m div 2 ^ d) * 2 ^ d \<le> m + 2 ^ (d - 1)"
proof -
  from assms obtain j where d: "d = Suc j" by (cases d) auto
  have m: "m = m div 2 ^ d * 2 ^ d + m mod 2 ^ d"
    by (rule div_mult_mod_eq [symmetric])
  have two: "(2::nat) ^ d = 2 * 2 ^ (d - 1)" by (simp add: d)
  show ?thesis
  proof (cases "2 ^ (d - 1) < m mod 2 ^ d \<or> (m mod 2 ^ d = 2 ^ (d - 1) \<and> odd (m div 2 ^ d))")
    case True
    then have "2 ^ (d - 1) \<le> m mod 2 ^ d" by auto
    moreover have "(m div 2 ^ d + 1) * 2 ^ d = m div 2 ^ d * 2 ^ d + 2 * 2 ^ (d - 1)"
      using two by (simp add: algebra_simps)
    ultimately have "(m div 2 ^ d + 1) * 2 ^ d \<le> m + 2 ^ (d - 1)"
      using m by linarith
    with True show ?thesis by (simp only: if_True)
  next
    case False
    have "m div 2 ^ d * 2 ^ d \<le> m" by simp
    then have "m div 2 ^ d * 2 ^ d \<le> m + 2 ^ (d - 1)" by linarith
    with False show ?thesis by (simp only: if_False)
  qed
qed

lemma tagNumber_range:
  assumes "randomDraw u"
  shows "0 \<le> tagNumber u \<and> tagNumber u < 1000000"
proof -
  define m where "m = significand u"
  define e where "e = exponent u"
  define M where "M = m * 1000000"
  have m53: "m < 2 ^ 53" and e_low: "- 1074 \<le> e" and below1: "valueOf u < 1"
    using assms by (simp_all add: randomDraw_def isDouble_def m_def e_def)
  have nonneg: "0 \<le> tagNumber u"
    by (simp add: tagNumber_def Math_floor_def pos_imp_zdiv_nonneg_iff)
  have prod: "multiply u million = roundToDouble M e"
    by (simp add: multiply_def million_def M_def m_def e_def)
  show ?thesis
  proof (cases "m = 0")
    case True
    then have "roundToDouble M e = \<lparr>significand = 0, exponent = e\<rparr>"
      using e_low by (simp add: roundToDouble_def M_def bitLength.simps [of 0])
    then show ?thesis
      by (simp add: tagNumber_def prod Math_floor_def)
  next
    case False
    have eneg: "e < 0"
    proof (rule ccontr)
      assume "\<not> e < 0"
      then have "valueOf u = real m * 2 ^ nat e" by (simp add: valueOf_def m_def e_def)
      moreover have "1 \<le> real m" using False by simp
      moreover have "(1::real) \<le> 2 ^ nat e" by simp
      ultimately have "1 \<le> valueOf u" by (metis mult_mono' mult_1 zero_le_one)
      with below1 show False by simp
    qed
    define N :: nat where "N = 2 ^ nat (- e)"
    have "real m / 2 ^ nat (- e) < 1"
      using below1 eneg by (simp add: valueOf_def m_def e_def)
    then have "real m < real N" by (simp add: N_def)
    then have mN: "m < N" by simp
    have MN: "M + 1000000 \<le> 1000000 * N" using mN by (simp add: M_def)
    have M73: "M < 2 ^ 73" using m53 by (simp add: M_def)
    have len: "bitLength M \<le> 73" using M73 by (rule bitLength_bound)
    define below where "below = max (int (bitLength M) - 53) (- 1074 - e)"
    have below20: "below \<le> 20" using len e_low by (simp add: below_def)
    show ?thesis
    proof (cases "below \<le> 0")
      case True
      then have "roundToDouble M e = \<lparr>significand = M, exponent = e\<rparr>"
        by (simp add: roundToDouble_def below_def Let_def)
      then have t: "tagNumber u = int M div 2 ^ nat (- e)"
        using eneg by (simp add: tagNumber_def prod Math_floor_def)
      have "M < 1000000 * N" using MN by simp
      then have "M div N < 1000000"
        by (simp add: less_mult_imp_div_less mult.commute)
      then have "int M div int N < 1000000" by (simp flip: zdiv_int)
      then show ?thesis using nonneg t by (simp add: N_def)
    next
      case False
      define d where "d = nat below"
      have d0: "0 < d" and d20: "d \<le> 20" using False below20 by (simp_all add: d_def)
      define q' where "q' = (if 2 ^ (d - 1) < M mod 2 ^ d \<or> (M mod 2 ^ d = 2 ^ (d - 1) \<and> odd (M div 2 ^ d))
          then M div 2 ^ d + 1 else M div 2 ^ d)"
      have r: "roundToDouble M e = \<lparr>significand = q', exponent = e + below\<rparr>"
        using False by (simp add: roundToDouble_def below_def [symmetric] Let_def q'_def d_def)
      have "q' * 2 ^ d \<le> M + 2 ^ (d - 1)"
        unfolding q'_def using d0 by (rule rounded_within_half)
      moreover have "(2::nat) ^ (d - 1) \<le> 2 ^ 19"
        using d20 by (intro power_increasing) simp_all
      ultimately have qd: "q' * 2 ^ d < 1000000 * N" using MN by simp
      show ?thesis
      proof (cases "0 \<le> e + below")
        case True
        have t: "tagNumber u = int q' * 2 ^ nat (e + below)"
          using True by (simp add: tagNumber_def prod r Math_floor_def)
        have "d = nat (e + below) + nat (- e)"
          using True eneg False by (simp add: d_def)
        then have "(2::nat) ^ d = 2 ^ nat (e + below) * N"
          by (simp add: N_def power_add)
        with qd have "(q' * 2 ^ nat (e + below)) * N < 1000000 * N"
          by (simp add: mult.assoc)
        then have "q' * 2 ^ nat (e + below) < 1000000" by simp
        then have "int (q' * 2 ^ nat (e + below)) < 1000000" by linarith
        then show ?thesis using nonneg t by simp
      next
        case False
        define k where "k = nat (- (e + below))"
        have t: "tagNumber u = int q' div 2 ^ k"
          using False by (simp add: tagNumber_def prod r Math_floor_def k_def)
        have "nat (- e) = k + d"
          using False eneg \<open>\<not> below \<le> 0\<close> by (simp add: d_def k_def)
        then have "N = 2 ^ k * 2 ^ d" by (simp add: N_def power_add)
        with qd have "q' * 2 ^ d < (1000000 * 2 ^ k) * 2 ^ d" by (simp add: mult.assoc)
        then have "q' < 1000000 * 2 ^ k" by simp
        then have "q' div 2 ^ k < 1000000"
          by (simp add: less_mult_imp_div_less)
        then have "int (q' div 2 ^ k) < 1000000" by simp
        then show ?thesis using nonneg t by (simp add: zdiv_int)
      qed
    qed
  qed
qed

subsection \<open>Numerals and tags\<close>

lemma digitValue_digitChar: "d < 10 \<Longrightarrow> digitValue (digitChar d) = d"
proof -
  assume "d < 10"
  then consider "d = 0" | "d = 1" | "d = 2" | "d = 3" | "d = 4" | "d = 5" | "d = 6" | "d = 7"
    | "d = 8" | "d = 9"
    by atomize_elim arith
  then show ?thesis
    by cases (simp_all add: digitValue_def digitChar_def)
qed

lemma fromDecimal_decimal: "fromDecimal (decimal n) = n"
proof (induction n rule: decimal.induct)
  case (1 n)
  show ?case
  proof (cases "n < 10")
    case True
    then show ?thesis
      by (subst decimal.simps) (simp add: fromDecimal_def digitValue_digitChar)
  next
    case False
    with 1 have ih: "fromDecimal (decimal (n div 10)) = n div 10" by simp
    have "fromDecimal (decimal n)
            = 10 * fromDecimal (decimal (n div 10)) + digitValue (digitChar (n mod 10))"
      using False by (subst decimal.simps) (simp add: fromDecimal_def)
    also have "\<dots> = 10 * (n div 10) + n mod 10"
      by (simp add: ih digitValue_digitChar)
    finally show ?thesis by simp
  qed
qed

lemma decimal_inj: "decimal m = decimal n \<longleftrightarrow> m = n"
proof
  assume "decimal m = decimal n"
  then have "fromDecimal (decimal m) = fromDecimal (decimal n)" by simp
  then show "m = n" by (simp add: fromDecimal_decimal)
qed simp

lemma toString_inj_nonneg: "0 \<le> i \<Longrightarrow> 0 \<le> j \<Longrightarrow> toString i = toString j \<longleftrightarrow> i = j"
  by (auto simp: toString_def decimal_inj)

lemma assignTag_generated:
  "\<not> truthy (req_tag r) \<Longrightarrow> assignTag r u = toString (tagNumber u)"
  by (simp add: assignTag_def generateMessageTag_def)

lemma sendRequest_registers:
  "msgRetryCache (snd (sendRequest P request timeout u s)) (assignTag request u)
     = Some \<lparr>cb_tag = assignTag request u, cb_timer = length (timers s),
             cb_promise = length (promises s)\<rparr>"
  by (simp add: sendRequest_def newPromise_def setTimeout_def send_def logger_def Let_def
      split: option.splits sum.splits)

lemma example_tagNumbers:
  "tagNumber half = 500000" "tagNumber nearHalf = 500000"
  "tagNumber point29 = 290000" "tagNumber nearPoint29 = 290000"
  by (simp_all add: double_defs Let_def)

lemma example_numerals: "toString 500000 = ''500000''" "toString 290000 = ''290000''"
  by (simp_all add: toString_def decimal.simps digitChar_def)

lemma example_draws:
  "randomDraw half" "randomDraw nearHalf" "randomDraw point29" "randomDraw nearPoint29"
  by (simp_all add: randomDraw_def isDouble_def valueOf_def half_def nearHalf_def point29_def
        nearPoint29_def)

text \<open>
  C4, as the specification states it, fails: the tag is drawn at random among a million
  values and nothing checks it against the tags in use. Two requests without a tag, with
  \<^verbatim>\<open>Math.random()\<close> returning 0.5 and then 0.5000001, both get the tag \<open>500000\<close>; the
  second registration replaces the first, whose promise (promise 0) no response can reach
  any more.
\<close>

theorem tags_collide_counterexample:
  "req_tag exampleRequest = None
   \<and> randomDraw half \<and> randomDraw nearHalf
   \<and> valueOf half = 1 / 2 \<and> valueOf nearHalf = 4503600528090421 / 9007199254740992
   \<and> valueOf half \<noteq> valueOf nearHalf
   \<and> assignTag exampleRequest half = ''500000''
   \<and> assignTag exampleRequest nearHalf = ''500000''
   \<and> msgRetryCache oneRequestPending ''500000''
        = Some \<lparr>cb_tag = ''500000'', cb_timer = 0, cb_promise = 0\<rparr>
   \<and> msgRetryCache twoRequestsSent ''500000''
        = Some \<lparr>cb_tag = ''500000'', cb_timer = 1, cb_promise = 1\<rparr>"
proof -
  have t: "assignTag exampleRequest half = ''500000''"
    "assignTag exampleRequest nearHalf = ''500000''"
    by (simp_all add: assignTag_def generateMessageTag_def exampleRequest_def truthy_def
          example_tagNumbers example_numerals)
  have v: "valueOf half = 1 / 2" "valueOf nearHalf = 4503600528090421 / 9007199254740992"
    by (simp_all add: valueOf_def half_def nearHalf_def)
  have "msgRetryCache twoRequestsSent ''500000''
        = Some \<lparr>cb_tag = ''500000'', cb_timer = 1, cb_promise = 1\<rparr>"
    using sendRequest_registers [of examplePlatform exampleRequest 30000 nearHalf
        oneRequestPending]
    by (simp add: twoRequestsSent_def t oneRequestPending_fields)
  moreover have "req_tag exampleRequest = None"
    by (simp add: exampleRequest_def)
  ultimately show ?thesis
    by (simp add: oneRequestPending_fields t v example_draws)
qed

text \<open>
  C4, amended. A request without a tag of its own is registered under the decimal
  numeral of \<^verbatim>\<open>Math.floor(u * 1000000)\<close>, where \<open>u\<close> is the double \<^verbatim>\<open>Math.random()\<close>
  returned and the product is that of doubles: an integer from 0 to 999999. The tags
  assigned to such requests are pairwise distinct exactly when those integers are.
\<close>

theorem tags_distinct_iff_draws:
  assumes "list_all (\<lambda>r. \<not> truthy (req_tag r)) rs" and "list_all randomDraw us"
    and "length rs = length us"
  shows "map2 assignTag rs us = map (\<lambda>u. toString (Math_floor (multiply u million))) us
       \<and> list_all (\<lambda>u. 0 \<le> Math_floor (multiply u million)
                        \<and> Math_floor (multiply u million) < 1000000) us
       \<and> (distinct (map2 assignTag rs us)
            \<longleftrightarrow> distinct (map (\<lambda>u. Math_floor (multiply u million)) us))"
proof -
  have tags: "map2 assignTag rs us = map (\<lambda>u. toString (tagNumber u)) us"
    using assms(3) assms(1)
    by (induction rs us rule: list_induct2) (simp_all add: assignTag_generated)
  have range: "list_all (\<lambda>u. 0 \<le> tagNumber u \<and> tagNumber u < 1000000) us"
    using assms(2) tagNumber_range by (auto simp: list_all_iff)
  have nonneg: "\<forall>i \<in> set (map tagNumber us). 0 \<le> i"
    using range by (auto simp: list_all_iff)
  have "inj_on toString (set (map tagNumber us))"
  proof (rule inj_onI)
    fix x y
    assume x: "x \<in> set (map tagNumber us)" and y: "y \<in> set (map tagNumber us)"
      and e: "toString x = toString y"
    from x y nonneg have "0 \<le> x" "0 \<le> y" by blast+
    with e show "x = y" by (simp add: toString_inj_nonneg)
  qed
  then have "distinct (map toString (map tagNumber us)) \<longleftrightarrow> distinct (map tagNumber us)"
    by (simp only: distinct_map) simp
  then have "distinct (map2 assignTag rs us) \<longleftrightarrow> distinct (map tagNumber us)"
    by (simp add: tags comp_def)
  with tags range show ?thesis
    by (simp add: tagNumber_def [abs_def])
qed

theorem tags_distinct_iff_draws_witness:
  "map2 assignTag [exampleRequest, exampleRequest] [half, point29] = [''500000'', ''290000'']
   \<and> distinct (map2 assignTag [exampleRequest, exampleRequest] [half, point29])
   \<and> map2 assignTag [exampleRequest, exampleRequest] [point29, nearPoint29]
       = [''290000'', ''290000'']
   \<and> \<not> distinct (map2 assignTag [exampleRequest, exampleRequest] [point29, nearPoint29])"
proof -
  have rs: "list_all (\<lambda>r. \<not> truthy (req_tag r)) [exampleRequest, exampleRequest]"
    by (simp add: exampleRequest_def truthy_def)
  have us: "list_all randomDraw [half, point29]" "list_all randomDraw [point29, nearPoint29]"
    by (simp_all add: example_draws)
  have n: "Math_floor (multiply half million) = 500000"
    "Math_floor (multiply point29 million) = 290000"
    "Math_floor (multiply nearPoint29 million) = 290000"
    using example_tagNumbers by (simp_all add: tagNumber_def)
  have a: "map2 assignTag [exampleRequest, exampleRequest] [half, point29]
             = [''500000'', ''290000'']"
    using tags_distinct_iff_draws [OF rs us(1), THEN conjunct1]
    by (simp add: n example_numerals)
  have b: "map2 assignTag [exampleRequest, exampleRequest] [point29, nearPoint29]
             = [''290000'', ''290000'']"
    using tags_distinct_iff_draws [OF rs us(2), THEN conjunct1]
    by (simp add: n example_numerals)
  show ?thesis
    unfolding a b by simp
qed

section \<open>The reconnection loop\<close>

subsection \<open>One attempt\<close>

text \<open>
  An attempt on a connection that still holds a socket fails before a socket is
  opened. An attempt on a connection without one, whose socket fails to open, has the
  listener on \<^verbatim>\<open>close\<close> start a further call of \<^verbatim>\<open>handleReconnection\<close>, which is waiting
  when the attempt has failed.
\<close>

lemma connectWithCredentials_exists:
  assumes "ws s \<noteq> None"
  shows "connectWithCredentials P outcome a s
           = (Inl ConnectionAlreadyExists, logger Error ''Failed to connect with credentials:'' s)"
  using assms by (simp add: connectWithCredentials_def connect_def)

lemma connectWithCredentials_open_fails:
  assumes "ws s = None"
  shows "\<exists>k. connectWithCredentials P (OpenFails msg) a s = (Inl (Thrown msg), k)
             \<and> emitted k = emitted s @ [EvConnectionError msg, EvClose 1006 []]
             \<and> ws k = None"
  using assms
  by (simp add: connectWithCredentials_def connect_def Let_def disconnect_def logger_def
        ws_on_error_def ws_on_close_def handleConnectionClose_def emit_def
      split: option.splits)

lemma clientConnect_held_socket:
  assumes "ws (connection c) \<noteq> None"
  shows "\<exists>c'. clientConnect P outcome (Some a) c = (Inl ConnectionAlreadyExists, c')
     \<and> client_emitted c'
         = client_emitted c @ [ClConnecting, ClConnectionFailed ConnectionAlreadyExists]
     \<and> client_waiting c' = client_waiting c
     \<and> client_credentials c' = Some a \<and> client_options c' = client_options c
     \<and> ws (connection c') \<noteq> None"
  using assms
  by (simp add: clientConnect_def connectWithCredentials_exists clientLogger_def clientEmit_def
        connectionFailed_def returned_def logger_def Let_def)

lemma clientConnect_open_fails:
  assumes "ws (connection c) = None" and "restartOnConnectionLost (client_options c)"
    and "0 < maxReconnectAttempts (client_options c)"
  shows "\<exists>c'. clientConnect P (OpenFails msg) (Some a) c = (Inl (Thrown msg), c')
     \<and> client_emitted c'
         = client_emitted c @ [ClConnecting, ClDisconnected, ClReconnecting 1,
                               ClConnectionFailed (Thrown msg)]
     \<and> client_waiting c' = client_waiting c @ [1]
     \<and> client_credentials c' = Some a \<and> client_options c' = client_options c
     \<and> ws (connection c') = None"
proof -
  obtain k where k:
    "connectWithCredentials P (OpenFails msg) a (connection c) = (Inl (Thrown msg), k)"
    "emitted k = emitted (connection c) @ [EvConnectionError msg, EvClose 1006 []]"
    "ws k = None"
    using connectWithCredentials_open_fails [OF assms(1)] by blast
  show ?thesis
    using assms(2,3) k
    by (simp add: clientConnect_def clientLogger_def clientEmit_def connectionFailed_def
          returned_def handleReconnection_def reconnectLoop_def Let_def)
qed


lemma delayElapsed_held_socket:
  assumes "ws (connection c) \<noteq> None" and "client_credentials c = Some a"
    and "client_waiting c = n # w"
  shows "client_emitted (delayElapsed P outcome 0 c)
           = client_emitted c @ [ClConnecting, ClConnectionFailed ConnectionAlreadyExists]
             @ (if n < maxReconnectAttempts (client_options c) then [ClReconnecting (n + 1)]
                else [ClReconnectFailed])
       \<and> client_waiting (delayElapsed P outcome 0 c)
           = w @ (if n < maxReconnectAttempts (client_options c) then [n + 1] else [])
       \<and> client_credentials (delayElapsed P outcome 0 c) = Some a
       \<and> client_options (delayElapsed P outcome 0 c) = client_options c
       \<and> ws (connection (delayElapsed P outcome 0 c)) \<noteq> None"
proof -
  let ?c1 = "c\<lparr>client_waiting := w\<rparr>"
  have "ws (connection ?c1) \<noteq> None" using assms(1) by simp
  from clientConnect_held_socket [OF this, of P outcome a]
  obtain c' where c':
    "clientConnect P outcome (Some a) ?c1 = (Inl ConnectionAlreadyExists, c')"
    "client_emitted c'
       = client_emitted c @ [ClConnecting, ClConnectionFailed ConnectionAlreadyExists]"
    "client_waiting c' = w" "client_credentials c' = Some a"
    "client_options c' = client_options c" "ws (connection c') \<noteq> None"
    by auto
  show ?thesis
    using assms(2,3) c'
    by (simp add: delayElapsed_def reconnectLoop_def clientLogger_def clientEmit_def Let_def)
qed

lemma delayElapsed_open_fails:
  assumes "ws (connection c) = None" and "client_credentials c = Some a"
    and "client_waiting c = n # w" and "restartOnConnectionLost (client_options c)"
    and "0 < maxReconnectAttempts (client_options c)"
  shows "client_emitted (delayElapsed P (OpenFails msg) 0 c)
           = client_emitted c @ [ClConnecting, ClDisconnected, ClReconnecting 1,
                                 ClConnectionFailed (Thrown msg)]
             @ (if n < maxReconnectAttempts (client_options c) then [ClReconnecting (n + 1)]
                else [ClReconnectFailed])
       \<and> client_waiting (delayElapsed P (OpenFails msg) 0 c)
           = w @ [1] @ (if n < maxReconnectAttempts (client_options c) then [n + 1] else [])
       \<and> client_credentials (delayElapsed P (OpenFails msg) 0 c) = Some a
       \<and> client_options (delayElapsed P (OpenFails msg) 0 c) = client_options c
       \<and> ws (connection (delayElapsed P (OpenFails msg) 0 c)) = None"
proof -
  let ?c1 = "c\<lparr>client_waiting := w\<rparr>"
  have "ws (connection ?c1) = None" "restartOnConnectionLost (client_options ?c1)"
    "0 < maxReconnectAttempts (client_options ?c1)"
    using assms(1,4,5) by simp_all
  from clientConnect_open_fails [OF this, of P msg a]
  obtain c' where c':
    "clientConnect P (OpenFails msg) (Some a) ?c1 = (Inl (Thrown msg), c')"
    "client_emitted c'
       = client_emitted c @ [ClConnecting, ClDisconnected, ClReconnecting 1,
                             ClConnectionFailed (Thrown msg)]"
    "client_waiting c' = w @ [1]" "client_credentials c' = Some a"
    "client_options c' = client_options c" "ws (connection c') = None"
    by auto
  show ?thesis
    using assms(2,3) c'
    by (simp add: delayElapsed_def reconnectLoop_def clientLogger_def clientEmit_def Let_def)
qed

lemma delayElapsed_nothing_waiting: "client_waiting c = [] \<Longrightarrow> delayElapsed P outcome i c = c"
  by (simp add: delayElapsed_def)

subsection \<open>The loop on a connection that holds its socket\<close>

text \<open>
  After a close that the connection did not ask for, the connection keeps the closed
  socket. Every attempt then fails in the same way, and the loop does what its bound
  says: \<^verbatim>\<open>reconnecting\<close> with the numbers 1 to \<open>maxReconnectAttempts\<close>, then
  \<^verbatim>\<open>reconnect_failed\<close> once, and no call is left waiting. It is the bound that the
  README gives (\<^verbatim>\<open>maxReconnectAttempts\<close>: the maximum number of reconnection attempts),
  and the one that the class \<^verbatim>\<open>WASocket\<close> of the same library keeps across the closes
  of failed sockets, with a counter in a field that only its listener on \<^verbatim>\<open>open\<close> sets
  back to zero.
\<close>

lemma delaysElapse_nothing_waiting:
  "client_waiting (delaysElapse P outcomes m c) = [] \<Longrightarrow> m \<le> n \<Longrightarrow>
   delaysElapse P outcomes n c = delaysElapse P outcomes m c"
proof (induction n)
  case 0
  then show ?case by simp
next
  case (Suc n)
  show ?case
  proof (cases "m = Suc n")
    case True
    then show ?thesis by simp
  next
    case False
    with Suc.prems have "m \<le> n" by simp
    with Suc have "delaysElapse P outcomes n c = delaysElapse P outcomes m c" by simp
    with Suc.prems(1) show ?thesis by (simp add: delayElapsed_nothing_waiting)
  qed
qed

lemma reconnectEvents_append [simp]:
  "reconnectEvents (xs @ ys) = reconnectEvents xs @ reconnectEvents ys"
  by (simp add: reconnectEvents_def)

lemma held_socket_progress:
  assumes "ws (connection c) \<noteq> None" and "client_credentials c = Some a"
    and "client_waiting c = []" and "int i < maxReconnectAttempts (client_options c)"
  shows "client_waiting (delaysElapse P outcomes i (handleReconnection c)) = [int i + 1]
       \<and> reconnectEvents (client_emitted (delaysElapse P outcomes i (handleReconnection c)))
           = reconnectEvents (client_emitted c) @ map ClReconnecting [1 .. int i + 1]
       \<and> client_credentials (delaysElapse P outcomes i (handleReconnection c)) = Some a
       \<and> client_options (delaysElapse P outcomes i (handleReconnection c)) = client_options c
       \<and> ws (connection (delaysElapse P outcomes i (handleReconnection c))) \<noteq> None"
  using assms(4)
proof (induction i)
  case 0
  then show ?case
    using assms(1-3)
    by (simp add: handleReconnection_def reconnectLoop_def clientLogger_def clientEmit_def
          reconnectEvents_def Let_def)
next
  case (Suc i)
  let ?ci = "delaysElapse P outcomes i (handleReconnection c)"
  from Suc have ih: "client_waiting ?ci = [int i + 1]"
    "reconnectEvents (client_emitted ?ci)
       = reconnectEvents (client_emitted c) @ map ClReconnecting [1 .. int i + 1]"
    "client_credentials ?ci = Some a" "client_options ?ci = client_options c"
    "ws (connection ?ci) \<noteq> None"
    by simp_all
  have less: "int i + 1 < maxReconnectAttempts (client_options ?ci)"
    using Suc.prems ih(4) by simp
  have up: "[1 .. int (Suc i) + 1] = [1 .. int i + 1] @ [int i + 2]"
    using upto_rec2 [of 1 "int i + 2"] by (simp add: algebra_simps)
  have st: "client_emitted (delayElapsed P (outcomes i) 0 ?ci)
              = client_emitted ?ci @ [ClConnecting, ClConnectionFailed ConnectionAlreadyExists,
                                      ClReconnecting (int i + 2)]"
    "client_waiting (delayElapsed P (outcomes i) 0 ?ci) = [int i + 2]"
    "client_credentials (delayElapsed P (outcomes i) 0 ?ci) = Some a"
    "client_options (delayElapsed P (outcomes i) 0 ?ci) = client_options c"
    "ws (connection (delayElapsed P (outcomes i) 0 ?ci)) \<noteq> None"
    using delayElapsed_held_socket [OF ih(5) ih(3) ih(1), of P "outcomes i"] less ih(4)
    by (simp_all add: algebra_simps)
  have "reconnectEvents (client_emitted (delayElapsed P (outcomes i) 0 ?ci))
          = reconnectEvents (client_emitted c) @ map ClReconnecting [1 .. int (Suc i) + 1]"
    unfolding st(1) up by (simp add: ih(2)) (simp add: reconnectEvents_def)
  with st show ?case
    by (simp add: algebra_simps)
qed

lemma held_socket_last:
  assumes "ws (connection c) \<noteq> None" and "client_credentials c = Some a"
    and "client_waiting c = []" and "0 < maxReconnectAttempts (client_options c)"
    and "nat (maxReconnectAttempts (client_options c)) = Suc i"
  shows "reconnectEvents (client_emitted (delaysElapse P outcomes (Suc i) (handleReconnection c)))
           = reconnectEvents (client_emitted c)
             @ map ClReconnecting [1 .. maxReconnectAttempts (client_options c)]
             @ [ClReconnectFailed]
       \<and> client_waiting (delaysElapse P outcomes (Suc i) (handleReconnection c)) = []"
proof -
  let ?ci = "delaysElapse P outcomes i (handleReconnection c)"
  have K: "maxReconnectAttempts (client_options c) = int i + 1"
    using assms(4,5) by linarith
  then have "int i < maxReconnectAttempts (client_options c)" by simp
  from held_socket_progress [OF assms(1-3) this, of P outcomes]
  have ci: "client_waiting ?ci = [int i + 1]"
    "reconnectEvents (client_emitted ?ci)
       = reconnectEvents (client_emitted c) @ map ClReconnecting [1 .. int i + 1]"
    "client_credentials ?ci = Some a"
    "client_options ?ci = client_options c"
    "ws (connection ?ci) \<noteq> None"
    by simp_all
  have no: "\<not> int i + 1 < maxReconnectAttempts (client_options ?ci)"
    by (simp add: ci(4) K)
  have st: "client_emitted (delayElapsed P (outcomes i) 0 ?ci)
              = client_emitted ?ci @ [ClConnecting, ClConnectionFailed ConnectionAlreadyExists,
                                      ClReconnectFailed]"
    "client_waiting (delayElapsed P (outcomes i) 0 ?ci) = []"
    using delayElapsed_held_socket [OF ci(5) ci(3) ci(1), of P "outcomes i"] no
    by simp_all
  have "reconnectEvents (client_emitted (delayElapsed P (outcomes i) 0 ?ci))
          = reconnectEvents (client_emitted c) @ map ClReconnecting [1 .. int i + 1]
            @ [ClReconnectFailed]"
    unfolding st(1) by (simp add: ci(2)) (simp add: reconnectEvents_def)
  with st(2) show ?thesis
    by (simp add: K)
qed

lemma held_socket_bound:
  assumes "ws (connection c) \<noteq> None" and "client_credentials c \<noteq> None"
    and "client_waiting c = []" and "nat (maxReconnectAttempts (client_options c)) \<le> n"
  shows "reconnectEvents (client_emitted (delaysElapse P outcomes n (handleReconnection c)))
           = reconnectEvents (client_emitted c)
             @ map ClReconnecting [1 .. maxReconnectAttempts (client_options c)]
             @ [ClReconnectFailed]
       \<and> client_waiting (delaysElapse P outcomes n (handleReconnection c)) = []"
proof -
  from assms(2) obtain a where a: "client_credentials c = Some a" by auto
  let ?K = "maxReconnectAttempts (client_options c)"
  let ?c0 = "handleReconnection c"
  have done_at: "reconnectEvents (client_emitted (delaysElapse P outcomes (nat ?K) ?c0))
           = reconnectEvents (client_emitted c) @ map ClReconnecting [1 .. ?K] @ [ClReconnectFailed]
       \<and> client_waiting (delaysElapse P outcomes (nat ?K) ?c0) = []"
  proof (cases "0 < ?K")
    case False
    then have z: "nat ?K = 0" "[1 .. ?K] = []" by simp_all
    have "reconnectEvents (client_emitted ?c0)
            = reconnectEvents (client_emitted c) @ [ClReconnectFailed]
          \<and> client_waiting ?c0 = []"
      using False a assms(3)
      by (simp add: handleReconnection_def reconnectLoop_def clientLogger_def clientEmit_def
            reconnectEvents_def)
    then show ?thesis unfolding z by simp
  next
    case True
    then obtain i where i: "nat ?K = Suc i" by (cases "nat ?K") auto
    from held_socket_last [OF assms(1) a assms(3) True i, of P outcomes]
    show ?thesis unfolding i .
  qed
  then have "client_waiting (delaysElapse P outcomes (nat ?K) ?c0) = []" by simp
  from delaysElapse_nothing_waiting [OF this assms(4)]
  have "delaysElapse P outcomes n ?c0 = delaysElapse P outcomes (nat ?K) ?c0" .
  with done_at show ?thesis by simp
qed

lemma socketCloses_bound:
  assumes "ws (connection c) \<noteq> None" and "client_credentials c \<noteq> None"
    and "client_waiting c = []" and "restartOnConnectionLost (client_options c)"
    and "nat (maxReconnectAttempts (client_options c)) \<le> n"
  shows "reconnectEvents (client_emitted
           (delaysElapse P outcomes n (socketCloses code reason c)))
           = reconnectEvents (client_emitted c)
             @ map ClReconnecting [1 .. maxReconnectAttempts (client_options c)]
             @ [ClReconnectFailed]
       \<and> client_waiting (delaysElapse P outcomes n (socketCloses code reason c)) = []"
proof -
  let ?c1 = "clientEmit ClDisconnected
               (c\<lparr>connection := ws_on_close code reason (connection c),
                  client_state := Disconnected\<rparr>)"
  have e: "emitted (ws_on_close code reason (connection c))
             = emitted (connection c) @ [EvClose code reason]"
    by (simp add: ws_on_close_def handleConnectionClose_def logger_def emit_def Let_def
        split: option.splits)
  have s: "socketCloses code reason c = handleReconnection ?c1"
    using assms(4) by (simp add: socketCloses_def returned_def e clientEmit_def)
  have c1: "ws (connection ?c1) \<noteq> None" "client_credentials ?c1 \<noteq> None"
    "client_waiting ?c1 = []" "client_options ?c1 = client_options c"
    "reconnectEvents (client_emitted ?c1) = reconnectEvents (client_emitted c)"
    using assms(2,3)
    by (simp_all add: clientEmit_def ws_on_close_def handleConnectionClose_def logger_def
          emit_def reconnectEvents_def Let_def split: option.splits)
  have "nat (maxReconnectAttempts (client_options ?c1)) \<le> n"
    using assms(5) c1(4) by simp
  from held_socket_bound [OF c1(1-3) this, of P outcomes] c1(4,5)
  show ?thesis
    unfolding s by simp
qed

lemma dropped_client_bound:
  "client_emitted resumedClient = [ClConnecting, ClReady]
   \<and> reconnectEvents (client_emitted (delaysElapse examplePlatform (\<lambda>j. Opens) 5 droppedClient))
       = [ClReconnecting 1, ClReconnecting 2, ClReconnecting 3, ClReconnecting 4,
          ClReconnecting 5, ClReconnectFailed]
   \<and> client_waiting (delaysElapse examplePlatform (\<lambda>j. Opens) 5 droppedClient) = []"
proof -
  have r: "[1 .. 5 :: int] = [1, 2, 3, 4, 5]"
    by (simp add: upto_rec1)
  have "ws (connection resumedClient) \<noteq> None" "client_credentials resumedClient \<noteq> None"
    "client_waiting resumedClient = []" "restartOnConnectionLost (client_options resumedClient)"
    "nat (maxReconnectAttempts (client_options resumedClient)) \<le> 5"
    by (simp_all add: resumedClient_fields resumedConnection_fields exampleOptions_def)
  from socketCloses_bound [OF this, of examplePlatform "\<lambda>j. Opens" 1006 "''abnormal''"]
  show ?thesis
    by (simp add: droppedClient_def resumedClient_fields exampleOptions_def r
          reconnectEvents_def)
qed

subsection \<open>The loop when sockets fail to open\<close>

text \<open>
  On a connection without a socket, with sockets that fail to open, every attempt leaves
  a further call waiting: after any number of delays a call is waiting, and the
  \<^verbatim>\<open>reconnecting\<close> events have grown by at least that number.
\<close>

lemma reconnectings_append [simp]:
  "reconnectings (xs @ ys) = reconnectings xs @ reconnectings ys"
  by (simp add: reconnectings_def)

lemma failed_opens_never_settle:
  assumes "ws (connection c) = None" and "client_credentials c = Some a"
    and "restartOnConnectionLost (client_options c)"
    and "0 < maxReconnectAttempts (client_options c)"
    and "client_waiting c \<noteq> []" and "\<forall>j. outcomes j \<noteq> Opens"
  shows "client_waiting (delaysElapse P outcomes n c) \<noteq> []
       \<and> length (reconnectings (client_emitted c)) + n
           \<le> length (reconnectings (client_emitted (delaysElapse P outcomes n c)))
       \<and> ws (connection (delaysElapse P outcomes n c)) = None
       \<and> client_credentials (delaysElapse P outcomes n c) = Some a
       \<and> client_options (delaysElapse P outcomes n c) = client_options c"
proof (induction n)
  case 0
  then show ?case using assms by simp
next
  case (Suc n)
  let ?cn = "delaysElapse P outcomes n c"
  from Suc obtain k w where w: "client_waiting ?cn = k # w"
    by (cases "client_waiting ?cn") auto
  from assms(6) obtain msg where msg: "outcomes n = OpenFails msg"
    by (cases "outcomes n") auto
  from Suc have cn: "ws (connection ?cn) = None" "client_credentials ?cn = Some a"
    "client_options ?cn = client_options c"
    "length (reconnectings (client_emitted c)) + n \<le> length (reconnectings (client_emitted ?cn))"
    by simp_all
  have r: "restartOnConnectionLost (client_options ?cn)"
    "0 < maxReconnectAttempts (client_options ?cn)"
    using assms(3,4) cn(3) by simp_all
  from delayElapsed_open_fails [OF cn(1) cn(2) w r, of P msg] cn
  show ?case
    by (simp add: msg reconnectings_def)
qed

text \<open>
  C6 on the code. A client that allows one reconnection attempt is connected with stored
  credentials while the server cannot be reached. The socket fails to open; its \<^verbatim>\<open>close\<close>
  starts a reconnection, which emits \<^verbatim>\<open>reconnecting\<close> with the number 1 and waits. When
  its delay has elapsed the attempt fails like the connection before it, so that a second
  call of \<^verbatim>\<open>handleReconnection\<close> emits \<^verbatim>\<open>reconnecting\<close> with the number 1 again, before
  the first call emits \<^verbatim>\<open>reconnect_failed\<close>. The second call is still waiting then, and
  after its delay the same happens once more: three \<^verbatim>\<open>reconnecting\<close> events where one
  attempt is allowed, each numbered 1 with no attempt having succeeded, two
  \<^verbatim>\<open>reconnect_failed\<close>, and a call waiting.
\<close>

theorem reconnection_restarts_after_failed_open:
  "maxReconnectAttempts (client_options unreachableClient) = 1
   \<and> client_credentials unreachableClient = Some 0
   \<and> client_emitted unreachableClient
       = [ClConnecting, ClDisconnected, ClReconnecting 1,
          ClConnectionFailed (Thrown ''ECONNREFUSED'')]
   \<and> client_waiting unreachableClient = [1]
   \<and> client_emitted
        (delaysElapse examplePlatform (\<lambda>j. OpenFails ''ECONNREFUSED'') 1 unreachableClient)
       = client_emitted unreachableClient
         @ [ClConnecting, ClDisconnected, ClReconnecting 1,
            ClConnectionFailed (Thrown ''ECONNREFUSED''), ClReconnectFailed]
   \<and> client_waiting
        (delaysElapse examplePlatform (\<lambda>j. OpenFails ''ECONNREFUSED'') 1 unreachableClient)
       = [1]
   \<and> reconnectEvents (client_emitted
        (delaysElapse examplePlatform (\<lambda>j. OpenFails ''ECONNREFUSED'') 2 unreachableClient))
       = [ClReconnecting 1, ClReconnecting 1, ClReconnectFailed,
          ClReconnecting 1, ClReconnectFailed]
   \<and> client_waiting
        (delaysElapse examplePlatform (\<lambda>j. OpenFails ''ECONNREFUSED'') 2 unreachableClient)
       = [1]"
proof -
  let ?P = examplePlatform
  let ?c0 = unreachableClient
  let ?c1 = "delayElapsed ?P (OpenFails ''ECONNREFUSED'') 0 ?c0"
  let ?c2 = "delayElapsed ?P (OpenFails ''ECONNREFUSED'') 0 ?c1"
  note f = unreachableClient_fields
  have o: "restartOnConnectionLost (client_options ?c0)"
    "0 < maxReconnectAttempts (client_options ?c0)"
    "maxReconnectAttempts (client_options ?c0) = 1"
    by (simp_all add: f oneAttemptOptions_fields)
  from delayElapsed_open_fails [OF f(5) f(1) f(4) o(1,2), of ?P "''ECONNREFUSED''"]
  have c1: "client_emitted ?c1
       = client_emitted ?c0 @ [ClConnecting, ClDisconnected, ClReconnecting 1,
            ClConnectionFailed (Thrown ''ECONNREFUSED''), ClReconnectFailed]"
    "client_waiting ?c1 = [1]" "client_credentials ?c1 = Some 0"
    "client_options ?c1 = client_options ?c0" "ws (connection ?c1) = None"
    by (simp_all add: o(3))
  have o1: "restartOnConnectionLost (client_options ?c1)"
    "0 < maxReconnectAttempts (client_options ?c1)"
    by (simp_all add: c1(4) o)
  from delayElapsed_open_fails [OF c1(5) c1(3) c1(2) o1, of ?P "''ECONNREFUSED''"]
  have c2: "client_emitted ?c2
       = client_emitted ?c1 @ [ClConnecting, ClDisconnected, ClReconnecting 1,
            ClConnectionFailed (Thrown ''ECONNREFUSED''), ClReconnectFailed]"
    "client_waiting ?c2 = [1]"
    by (simp_all add: c1(4) o(3))
  have r: "reconnectEvents (client_emitted ?c2)
       = [ClReconnecting 1, ClReconnecting 1, ClReconnectFailed,
          ClReconnecting 1, ClReconnectFailed]"
    unfolding c2(1) c1(1) f(3) by (simp add: reconnectEvents_def)
  have d: "delaysElapse ?P (\<lambda>j. OpenFails ''ECONNREFUSED'') 1 ?c0 = ?c1"
    "delaysElapse ?P (\<lambda>j. OpenFails ''ECONNREFUSED'') 2 ?c0 = ?c2"
    by (simp_all add: numeral_2_eq_2)
  show ?thesis
    unfolding d using o(3) f(1,3,4) c1(1,2) c2(2) r by simp
qed

section \<open>Credentials in storage\<close>

lemma hexValue_hexDigit: "d < 16 \<Longrightarrow> hexValue (hexDigit d) = Some d"
proof -
  assume "d < 16"
  then consider "d = 0" | "d = 1" | "d = 2" | "d = 3" | "d = 4" | "d = 5" | "d = 6" | "d = 7"
    | "d = 8" | "d = 9" | "d = 10" | "d = 11" | "d = 12" | "d = 13" | "d = 14" | "d = 15"
    by atomize_elim arith
  then show ?thesis
    by cases (simp_all add: hexValue_def hexDigit_def)
qed

lemma hex4_control:
  assumes "n < 256"
  shows "hex4 (CHR ''0'') (CHR ''0'') (hexDigit (n div 16)) (hexDigit (n mod 16)) = Some n"
proof -
  have z: "hexValue (CHR ''0'') = Some 0" by (simp add: hexValue_def)
  have a: "hexValue (hexDigit (n div 16)) = Some (n div 16)"
    using assms by (intro hexValue_hexDigit) simp
  have b: "hexValue (hexDigit (n mod 16)) = Some (n mod 16)"
    by (intro hexValue_hexDigit) simp
  show ?thesis by (simp add: hex4_def z a b)
qed

lemma unquote_quoteChar: "unquote (quoteChar c @ cs) = andThen c (unquote cs)"
proof -
  consider (b) "c = CHR 0x08" | (t) "c = CHR 0x09" | (n) "c = CHR 0x0A" | (f) "c = CHR 0x0C"
    | (r) "c = CHR 0x0D" | (q) "c = CHR 0x22" | (s) "c = CHR 0x5C"
    | (ctl) "c \<notin> {CHR 0x08, CHR 0x09, CHR 0x0A, CHR 0x0C, CHR 0x0D, CHR 0x22, CHR 0x5C}"
        "(of_char c :: nat) < 32"
    | (plain) "c \<notin> {CHR 0x08, CHR 0x09, CHR 0x0A, CHR 0x0C, CHR 0x0D, CHR 0x22, CHR 0x5C}"
        "\<not> (of_char c :: nat) < 32"
    by blast
  then show ?thesis
  proof cases
    case ctl
    have h: "hex4 (CHR ''0'') (CHR ''0'') (hexDigit (of_char c div 16))
               (hexDigit (of_char c mod 16)) = Some (of_char c)"
      by (rule hex4_control) simp
    from ctl show ?thesis
      by (simp add: quoteChar_def h)
  next
    case plain
    then show ?thesis by (simp add: quoteChar_def)
  qed (simp_all add: quoteChar_def unescape_def)
qed

lemma unquote_quoted: "unquote (concat (map quoteChar s) @ CHR 0x22 # rest) = Some (s, rest)"
  by (induction s) (simp_all add: unquote_quoteChar andThen_def)

lemma tokens_quoted: "tokens (quoteJSONString s @ rest) = consToken (Str s) (tokens rest)"
  by (simp add: quoteJSONString_def isSpace_def unquote_quoted)

lemma tokens_members:
  "tokens (stringifyMembers obj @ rest)
     = map_option (\<lambda>ts. memberTokens obj @ ts) (tokens rest)"
proof (induction obj rule: stringifyMembers.induct)
  case 1
  show ?case by (simp add: option.map_ident)
next
  case (2 k v)
  have "tokens (quoteJSONString k @ CHR '':'' # quoteJSONString v @ rest)
          = consToken (Str k) (consToken Colon (consToken (Str v) (tokens rest)))"
    by (simp add: tokens_quoted isSpace_def)
  then show ?case
    by (simp add: consToken_def option.map_comp comp_def)
next
  case (3 k v m ms)
  have "tokens (quoteJSONString k @ CHR '':'' # quoteJSONString v @ CHR '','' #
                  stringifyMembers (m # ms) @ rest)
          = consToken (Str k) (consToken Colon (consToken (Str v) (consToken Comma
              (tokens (stringifyMembers (m # ms) @ rest)))))"
    by (simp add: tokens_quoted isSpace_def)
  then show ?case
    using 3 by (simp add: consToken_def option.map_comp comp_def)
qed

lemma tokens_stringify:
  "tokens (JSON_stringify obj) = Some (LBrace # memberTokens obj @ [RBrace])"
proof -
  have "tokens ''}'' = Some [RBrace]"
    by (simp add: isSpace_def consToken_def)
  then show ?thesis
    using tokens_members [of obj "''}''"]
    by (simp add: JSON_stringify_def isSpace_def consToken_def)
qed

lemma members_memberTokens:
  "obj \<noteq> [] \<Longrightarrow> members (memberTokens obj @ [RBrace]) = Some obj"
  by (induction obj rule: memberTokens.induct) simp_all

lemma parseObject_stringify: "parseObject (LBrace # memberTokens obj @ [RBrace]) = Some obj"
proof (cases obj)
  case Nil
  then show ?thesis by (simp add: parseObject_def)
next
  case (Cons m ms)
  then have "obj \<noteq> []" by simp
  from members_memberTokens [OF this] Cons show ?thesis
    by (cases m; cases ms) (auto simp: parseObject_def)
qed

lemma setProperty_fresh: "k \<notin> fst ` set ps \<Longrightarrow> setProperty k v ps = ps @ [(k, v)]"
  by (induction ps) auto

lemma foldl_setProperty:
  "distinct (map fst ms) \<Longrightarrow> fst ` set acc \<inter> fst ` set ms = {} \<Longrightarrow>
   foldl (\<lambda>obj (k, v). setProperty k v obj) acc ms = acc @ ms"
proof (induction ms arbitrary: acc)
  case Nil
  then show ?case by simp
next
  case (Cons m ms)
  obtain k v where m: "m = (k, v)" by (cases m)
  from Cons.prems have fresh: "k \<notin> fst ` set acc" by (auto simp: m)
  have "foldl (\<lambda>obj (k, v). setProperty k v obj) (acc @ [(k, v)]) ms = (acc @ [(k, v)]) @ ms"
    using Cons.prems by (intro Cons.IH) (auto simp: m)
  then show ?case by (simp add: m setProperty_fresh [OF fresh])
qed

lemma objectOf_distinct: "distinct (map fst ms) \<Longrightarrow> objectOf ms = ms"
  using foldl_setProperty [of ms "[]"] by (simp add: objectOf_def)

lemma JSON_roundtrip:
  "distinct (map fst obj) \<Longrightarrow> \<not> list_ex (\<lambda>(k, v). arrayIndexKey k) obj \<Longrightarrow>
   JSON_parse (JSON_stringify obj) = Some obj"
  by (simp add: JSON_parse_def tokens_stringify parseObject_stringify objectOf_distinct)

lemma credentialsObject_distinct: "distinct (map fst (credentialsObject c))"
  by (simp add: credentialsObject_def property_def split: option.splits)

lemma credentialsObject_keys: "\<not> list_ex (\<lambda>(k, v). arrayIndexKey k) (credentialsObject c)"
  by (simp add: credentialsObject_def property_def arrayIndexKey_def isDigit_def
      split: option.splits)

lemma asCredentials_credentialsObject: "asCredentials (credentialsObject c) = Some c"
  by (simp add: asCredentials_def credentialsObject_def property_def split: option.splits)

text \<open>
  C9. For every credentials value, writing its object with \<^verbatim>\<open>formatCredentialsForStorage\<close>
  and reading the text back with \<^verbatim>\<open>parseCredentialsFromStorage\<close> gives the same object,
  property for property and in the same order, and that object read as credentials is
  the value started from. The same holds for every object whose properties are strings.
\<close>

theorem credentials_roundtrip:
  "parseCredentialsFromStorage (formatCredentialsForStorage (credentialsObject c))
     = Some (credentialsObject c)
   \<and> asCredentials (credentialsObject c) = Some c
   \<and> (distinct (map fst obj) \<and> \<not> list_ex (\<lambda>(k, v). arrayIndexKey k) obj
        \<longrightarrow> parseCredentialsFromStorage (formatCredentialsForStorage obj) = Some obj)"
  by (simp add: parseCredentialsFromStorage_def formatCredentialsForStorage_def JSON_roundtrip
        credentialsObject_distinct credentialsObject_keys asCredentials_credentialsObject)

theorem credentials_roundtrip_witness:
  "formatCredentialsForStorage [(''publicKey'', ''a''), (''session'', [CHR 0x22, CHR 0x0A])]
     = [CHR ''{'', CHR 0x22] @ ''publicKey'' @ [CHR 0x22, CHR '':'', CHR 0x22] @ ''a''
       @ [CHR 0x22, CHR '','', CHR 0x22] @ ''session'' @ [CHR 0x22, CHR '':'', CHR 0x22]
       @ [CHR 0x5C, CHR 0x22, CHR 0x5C, CHR ''n''] @ [CHR 0x22, CHR ''}'']
   \<and> parseCredentialsFromStorage (formatCredentialsForStorage
        [(''publicKey'', ''a''), (''session'', [CHR 0x22, CHR 0x0A])])
      = Some [(''publicKey'', ''a''), (''session'', [CHR 0x22, CHR 0x0A])]
   \<and> asCredentials (credentialsObject exampleCredentials) = Some exampleCredentials
   \<and> parseCredentialsFromStorage (formatCredentialsForStorage
        (credentialsObject exampleCredentials)) = Some (credentialsObject exampleCredentials)"
proof -
  have f: "formatCredentialsForStorage
             [(''publicKey'', ''a''), (''session'', [CHR 0x22, CHR 0x0A])]
     = [CHR ''{'', CHR 0x22] @ ''publicKey'' @ [CHR 0x22, CHR '':'', CHR 0x22] @ ''a''
       @ [CHR 0x22, CHR '','', CHR 0x22] @ ''session'' @ [CHR 0x22, CHR '':'', CHR 0x22]
       @ [CHR 0x5C, CHR 0x22, CHR 0x5C, CHR ''n''] @ [CHR 0x22, CHR ''}'']"
    by (simp add: formatCredentialsForStorage_def JSON_stringify_def quoteJSONString_def
          quoteChar_def)
  have k: "\<not> arrayIndexKey ''publicKey''" "\<not> arrayIndexKey ''session''"
    by (simp_all add: arrayIndexKey_def isDigit_def)
  show ?thesis
    using credentials_roundtrip [of exampleCredentials
        "[(''publicKey'', ''a''), (''session'', [CHR 0x22, CHR 0x0A])]"] f k
    by simp
qed

section \<open>Phone numbers\<close>

lemma jid_digits_all_digits: "list_all isDigit (jid_digits s)"
proof -
  have f: "list_all isDigit (filter isDigit s)"
    by (simp add: list_all_iff)
  have six: "isDigit CHR ''6''" and two: "isDigit CHR ''2''"
    by (simp_all add: isDigit_def)
  show ?thesis
  proof (cases "filter isDigit s")
    case Nil
    then show ?thesis by (simp add: jid_digits_def six two)
  next
    case (Cons c rest)
    with f have "list_all isDigit rest" and "isDigit c" by simp_all
    with Cons show ?thesis by (simp add: jid_digits_def Let_def six two)
  qed
qed

lemma validatePhoneNumber_jid_digits: "validatePhoneNumber s = jid_digits s @ ''@c.us''"
  by (cases "filter isDigit s")
     (simp_all add: validatePhoneNumber_def jid_digits_def startsWith_def substring_def Let_def)

text \<open>
  C10. For every input, \<^verbatim>\<open>validatePhoneNumber\<close> returns \<open>d @ ''@c.us''\<close> where \<open>d\<close> is
  the digit string described above and contains decimal digits only; the output ends
  with \<open>@c.us\<close>; and the function is not injective: a number written with a leading
  \<open>0\<close> and the same number written with the country code \<open>62\<close> give the same JID.
\<close>

theorem validatePhoneNumber_form:
  "validatePhoneNumber s = jid_digits s @ ''@c.us''
   \<and> list_all isDigit (jid_digits s)
   \<and> drop (length (validatePhoneNumber s) - 5) (validatePhoneNumber s) = ''@c.us''
   \<and> ''08123456789'' \<noteq> ''628123456789''
   \<and> validatePhoneNumber ''08123456789'' = validatePhoneNumber ''628123456789''"
proof -
  have same: "validatePhoneNumber ''08123456789'' = validatePhoneNumber ''628123456789''"
    by (simp add: validatePhoneNumber_def isDigit_def startsWith_def substring_def)
  show ?thesis
    using same by (simp add: validatePhoneNumber_jid_digits jid_digits_all_digits)
qed

theorem validatePhoneNumber_form_witness:
  "validatePhoneNumber ''+62 (812) 345'' = ''6262812345@c.us''
   \<and> validatePhoneNumber ''0812-345'' = ''6262812345@c.us''
   \<and> jid_digits ''0812-345'' = ''6262812345''"
proof -
  have a: "jid_digits ''+62 (812) 345'' = ''6262812345''"
    by (simp add: jid_digits_def isDigit_def)
  have b: "jid_digits ''0812-345'' = ''6262812345''"
    by (simp add: jid_digits_def isDigit_def)
  show ?thesis
    using validatePhoneNumber_form [of "''+62 (812) 345''"]
      validatePhoneNumber_form [of "''0812-345''"] a b
    by simp
qed

end
